theory Spec2Isabelle
  imports Complex_Main "HOL-Library.Word"
begin

section \<open>dadafilterbank: a shallow embedding of \<^verbatim>\<open>src/main.c\<close>\<close>

text \<open>
  The program connects to a PSRDADA ring buffer, reads one ASCII header block, derives its
  run parameters from it, opens one filterbank file per tied-array beam (TAB) and then copies
  every ring-buffer page, transposed and with the frequency axis reversed, to those files.

  C types are modelled as follows.
  \<^item> \<^verbatim>\<open>char\<close> is a byte, \<open>8 word\<close>; \<^verbatim>\<open>unsigned int\<close> and the \<^verbatim>\<open>int\<close>
    variables filled from the header are \<open>32 word\<close>, so that the index arithmetic of the copy
    loop wraps modulo \<open>2 ^ 32\<close> exactly as the C expressions do (an \<^verbatim>\<open>int\<close> operand is
    converted to \<^verbatim>\<open>unsigned int\<close> as soon as it meets \<^verbatim>\<open>nchannels\<close>).
  \<^item> \<^verbatim>\<open>ntimes\<close> and \<^verbatim>\<open>ntabs\<close> only ever hold the literals 1, 12, 12500 and 25000; they
    are \<open>int\<close>. Loop counters run over \<open>[0..<n]\<close> and enter the word arithmetic through
    \<open>of_nat\<close>.
  \<^item> \<^verbatim>\<open>double\<close> is idealised as \<open>real\<close>: rounding is not modelled.
  \<^item> A \<^verbatim>\<open>char *\<close> into the ring buffer is the memory seen through it, a function from
    byte offsets to bytes. The C code checks no bound on it and neither does the model.
  \<^item> Calls that leave the program (console, log, files, ring buffer) are recorded in order
    in the \<open>events\<close> of a \<open>world\<close>; \<^verbatim>\<open>exit\<close> is the \<open>Inl\<close> branch of a sum.
  \<^item> The one place where the program passes a null pointer to the C library, the
    \<^verbatim>\<open>LOG\<close> after a failed \<^verbatim>\<open>fopen\<close> of the log file, ends the run with \<open>SIGSEGV\<close>.
\<close>

subsection \<open>Data\<close>

type_synonym byte = "8 word"
type_synonym page = "nat \<Rightarrow> byte"

text \<open>
  How the process ends: with one of the two exit statuses, or killed by the signal
  \<^verbatim>\<open>SIGSEGV\<close> before it can exit.
\<close>

datatype exit_code = EXIT_SUCCESS | EXIT_FAILURE | SIGSEGV

text \<open>The arguments of one \<^verbatim>\<open>filterbank_create\<close> call, in the order of the C call.\<close>

record filterbank_args =
  file_name :: string
  telescope_id :: int
  machine_id :: int
  fb_source_name :: string
  fb_az_start :: real
  fb_za_start :: real
  src_raj :: real
  src_dej :: real
  tstart :: real
  fb_tsamp :: real
  nbits :: "32 word"
  fch1 :: real
  foff :: real
  nchans :: "32 word"
  nbeams :: int
  ibeam :: int
  nifs :: int

text \<open>
  What \<^verbatim>\<open>ascii_header_get\<close> can extract from the header block: the fields present in it,
  by conversion (\<^verbatim>\<open>%lf\<close>, \<^verbatim>\<open>%s\<close>, \<^verbatim>\<open>%i\<close>).
\<close>

record header =
  hdr_lf :: "string \<rightharpoonup> real"
  hdr_s :: "string \<rightharpoonup> string"
  hdr_i :: "string \<rightharpoonup> 32 word"

text \<open>
  Console and log messages. Each constructor stands for one format string of the source and
  carries the values formatted into it.
\<close>

datatype msg =
    Usage                           \<comment> \<open>the two \<^verbatim>\<open>printf\<close> lines of \<^verbatim>\<open>printOptions\<close>\<close>
  | Unknown_option char             \<comment> \<open>\<^verbatim>\<open>Unknow option '%c'\<close>\<close>
  | Key_not_set                     \<comment> \<open>\<^verbatim>\<open>Error: DADA key not set\<close>\<close>
  | Log_file_not_set                \<comment> \<open>\<^verbatim>\<open>Error: Log file not set\<close>\<close>
  | Error_opening_logfile string
  | Logging_to_logfile string
  | Shmkey string                   \<comment> \<open>\<^verbatim>\<open>dadafilterbank SHMKEY: %s\<close>\<close>
  | Error_connect                   \<comment> \<open>\<^verbatim>\<open>ERROR in dada_hdu_connect\<close>\<close>
  | Error_open_view                 \<comment> \<open>\<^verbatim>\<open>ERROR in dada_hdu_open_view\<close>\<close>
  | Error_header_block              \<comment> \<open>\<^verbatim>\<open>ERROR. Get next header block error\<close>\<close>
  | Error_mark_cleared              \<comment> \<open>\<^verbatim>\<open>ERROR. Cannot mark the header as cleared\<close>\<close>
  | Psrdada_header header           \<comment> \<open>\<^verbatim>\<open>psrdada HEADER:\<close> followed by the block\<close>
  | Illegal_science_case "32 word"  \<comment> \<open>\<^verbatim>\<open>Error: Illegal science case '%i'\<close>\<close>
  | Version
  | Science_case "32 word"
  | Filename_prefix string
  | Mode_I_TAB                      \<comment> \<open>\<^verbatim>\<open>Science mode: I + TAB\<close>\<close>
  | Mode_I_IAB                      \<comment> \<open>\<^verbatim>\<open>Science mode: I + IAB\<close>\<close>
  | Modes_not_supported             \<comment> \<open>\<^verbatim>\<open>Error: modes IQUV+TAB / IQUV+IAB not supported\<close>\<close>
  | Illegal_science_mode "32 word"  \<comment> \<open>\<^verbatim>\<open>Error: Illegal science mode '%i'\<close>\<close>
  | End_of_data
  | Read_pages int
  | Sigint_received

datatype event =
    Stdout msg                          \<comment> \<open>\<^verbatim>\<open>printf\<close>\<close>
  | Stderr msg                          \<comment> \<open>\<^verbatim>\<open>fprintf(stderr, ...)\<close>\<close>
  | Log msg                             \<comment> \<open>the \<^verbatim>\<open>LOG\<close> macro: standard output and run log\<close>
  | Filterbank_create filterbank_args int  \<comment> \<open>the call and the descriptor it returned\<close>
  | Write int "byte list"               \<comment> \<open>\<^verbatim>\<open>write(fd, buffer, count)\<close>: the bytes handed over\<close>
  | Fsync int
  | Filterbank_close int
  | Ipcbuf_mark_cleared                 \<comment> \<open>the data page is released\<close>
  | Signal_sigint                       \<comment> \<open>\<^verbatim>\<open>signal(SIGINT, sigint_handler)\<close>\<close>
  | Disconnect                          \<comment> \<open>\<^verbatim>\<open>dada_hdu_unlock_read; dada_hdu_disconnect\<close>\<close>

record world =
  events :: "event list"
  next_fd :: int

text \<open>
  What a run receives from outside: whether the log file opens, how the ring buffer answers,
  the header block (\<open>None\<close> when \<^verbatim>\<open>ipcbuf_get_next_read\<close> returns \<^verbatim>\<open>NULL\<close> or size 0),
  the answers of the successive \<^verbatim>\<open>ipcbuf_get_next_read\<close> calls on the data block
  (\<open>None\<close> is \<^verbatim>\<open>NULL\<close>; \<^verbatim>\<open>ipcbuf_eod\<close> holds once they are used up), the bytes found
  in freshly allocated memory, and the first free file descriptor.
\<close>

record env =
  logfile_opens :: bool
  connect_ok :: bool
  lock_read_ok :: bool
  header_block :: "header option"
  header_cleared_ok :: bool
  data_block :: "page option list"
  heap :: "nat \<Rightarrow> byte"
  first_fd :: int

text \<open>The global variables of the program.\<close>

record globals =
  output_fds :: "int list"   \<comment> \<open>\<^verbatim>\<open>int output[MAXTABS]\<close>\<close>
  science_case :: "32 word"
  science_mode :: "32 word"
  padded_size :: "32 word"
  min_frequency :: real
  bandwidth :: real
  ra :: real
  dec :: real
  source_name :: string
  az_start :: real
  za_start :: real
  mjd_start :: real
  tsamp :: real
  ntimes :: int
  ntabs :: int

definition MAXTABS :: nat where
  "MAXTABS = 12"

definition nchannels :: "32 word" where
  "nchannels = 1536"

definition nbit :: "32 word" where
  "nbit = 8"

text \<open>
  The initial values: the initialisers of the source, and zero for the globals without one.
\<close>

definition initial_globals :: globals where
  "initial_globals =
     \<lparr> output_fds = replicate MAXTABS 0,
       science_case = 3, science_mode = 2, padded_size = 12500,
       min_frequency = 0, bandwidth = 0, ra = 0, dec = 0, source_name = [],
       az_start = 0, za_start = 0, mjd_start = 0,
       tsamp = 1.024 / 12500, ntimes = 12500, ntabs = 1 \<rparr>"

type_synonym 'a result = "(exit_code \<times> world) + ('a \<times> world)"

definition emit :: "event \<Rightarrow> world \<Rightarrow> world" where
  "emit ev w = w\<lparr>events := events w @ [ev]\<rparr>"

definition LOG :: "msg \<Rightarrow> world \<Rightarrow> world" where
  "LOG m w = emit (Log m) w"

definition exit_with :: "exit_code \<Rightarrow> world \<Rightarrow> 'a result" where
  "exit_with c w = Inl (c, w)"


subsection \<open>\<^verbatim>\<open>init_ringbuffer\<close>\<close>

text \<open>
  Modelled from the spec: \<^verbatim>\<open>ascii_header_get\<close> belongs to the PSRDADA library and is not
  under \<^verbatim>\<open>src/\<close>. It looks the keyword up in the header block and converts its value into
  the variable behind the pointer; when the keyword is absent the variable keeps the value it
  had ("a missing field silently leaves a default value"). The program ignores what the call
  returns.
\<close>

definition ascii_header_get :: "('k \<rightharpoonup> 'v) \<Rightarrow> 'k \<Rightarrow> 'v \<Rightarrow> 'v" where
  "ascii_header_get hdr keyword var = (case hdr keyword of None \<Rightarrow> var | Some v \<Rightarrow> v)"

definition parse_header :: "header \<Rightarrow> globals \<Rightarrow> globals" where
  "parse_header h g =
     g\<lparr> min_frequency := ascii_header_get (hdr_lf h) ''MIN_FREQUENCY'' (min_frequency g),
        bandwidth := ascii_header_get (hdr_lf h) ''BW'' (bandwidth g),
        ra := ascii_header_get (hdr_lf h) ''RA'' (ra g),
        dec := ascii_header_get (hdr_lf h) ''DEC'' (dec g),
        source_name := ascii_header_get (hdr_s h) ''SOURCE'' (source_name g),
        az_start := ascii_header_get (hdr_lf h) ''AZ_START'' (az_start g),
        za_start := ascii_header_get (hdr_lf h) ''ZA_START'' (za_start g),
        mjd_start := ascii_header_get (hdr_lf h) ''MJD_START'' (mjd_start g),
        science_case := ascii_header_get (hdr_i h) ''SCIENCE_CASE'' (science_case g),
        science_mode := ascii_header_get (hdr_i h) ''SCIENCE_MODE'' (science_mode g),
        padded_size := ascii_header_get (hdr_i h) ''PADDED_SIZE'' (padded_size g) \<rparr>"

definition init_ringbuffer :: "string \<Rightarrow> env \<Rightarrow> globals \<Rightarrow> world \<Rightarrow> globals result" where
  "init_ringbuffer key e g w =
     (let w = LOG (Shmkey key) w in
      if \<not> connect_ok e then exit_with EXIT_FAILURE (LOG Error_connect w)
      else if \<not> lock_read_ok e then exit_with EXIT_FAILURE (LOG Error_open_view w)
      else case header_block e of
        None \<Rightarrow> exit_with EXIT_FAILURE (LOG Error_header_block w)
      | Some h \<Rightarrow>
          let g = parse_header h g in
          if \<not> header_cleared_ok e then exit_with EXIT_FAILURE (LOG Error_mark_cleared w)
          else Inr (g, LOG (Psrdada_header h) w))"

subsection \<open>\<^verbatim>\<open>printOptions\<close> and \<^verbatim>\<open>parseOptions\<close>\<close>

definition printOptions :: "world \<Rightarrow> world" where
  "printOptions w = emit (Stdout Usage) w"

text \<open>
  \<^verbatim>\<open>getopt\<close> of the C library, on the arguments not yet scanned. \<open>optstring_lookup\<close> says
  whether a character is an option of the option string and whether it takes an argument.
  \<open>getopt\<close> returns \<open>None\<close> for \<open>-1\<close>, and otherwise the option character (\<open>?\<close> for a
  character that is not in the option string, or for a missing argument), \<^verbatim>\<open>optarg\<close>, and
  the arguments left. Arguments that are not options are passed over, as glibc does; a
  cluster such as \<^verbatim>\<open>-kl\<close> is continued as \<^verbatim>\<open>-l\<close>. The message that \<^verbatim>\<open>getopt\<close> itself
  prints for an unknown option is not recorded.
\<close>

fun optstring_lookup :: "string \<Rightarrow> char \<Rightarrow> bool option" where
  "optstring_lookup [] c = None"
| "optstring_lookup (x # xs) c =
     (if x = c \<and> c \<noteq> CHR '':'' then Some (case xs of [] \<Rightarrow> False | y # _ \<Rightarrow> y = CHR '':'')
      else optstring_lookup xs c)"

fun getopt :: "string \<Rightarrow> string list \<Rightarrow> (char \<times> string \<times> string list) option" where
  "getopt optstring [] = None"
| "getopt optstring (arg # rest) =
     (case arg of
        c1 # c # cluster \<Rightarrow>
          if c1 \<noteq> CHR ''-'' then getopt optstring rest
          else if c = CHR ''-'' \<and> cluster = [] then None
          else (case optstring_lookup optstring c of
                  None \<Rightarrow>
                    Some (CHR ''?'', [], if cluster = [] then rest else (CHR ''-'' # cluster) # rest)
                | Some False \<Rightarrow>
                    Some (c, [], if cluster = [] then rest else (CHR ''-'' # cluster) # rest)
                | Some True \<Rightarrow>
                    if cluster \<noteq> [] then Some (c, cluster, rest)
                    else (case rest of
                            [] \<Rightarrow> Some (CHR ''?'', [], [])
                          | optarg # rest' \<Rightarrow> Some (c, optarg, rest')))
      | _ \<Rightarrow> getopt optstring rest)"

text \<open>The local variables of \<^verbatim>\<open>parseOptions\<close>: a pointer is \<open>None\<close> until it is set.\<close>

record options =
  key_ptr :: "string option"
  logfile_ptr :: "string option"
  prefix_ptr :: "string option"

definition argsize :: "string list \<Rightarrow> nat" where
  "argsize args = sum_list (map (\<lambda>a. Suc (length a)) args)"

function parseOptions_loop :: "string list \<Rightarrow> options \<Rightarrow> world \<Rightarrow> options result" where
  "parseOptions_loop args opts w =
     (case getopt ''b:c:m:k:l:n:'' args of
        None \<Rightarrow> Inr (opts, w)
      | Some (c, optarg, rest) \<Rightarrow>
          if c = CHR ''k'' then parseOptions_loop rest (opts\<lparr>key_ptr := Some optarg\<rparr>) w
          else if c = CHR ''l'' then parseOptions_loop rest (opts\<lparr>logfile_ptr := Some optarg\<rparr>) w
          else if c = CHR ''n'' then parseOptions_loop rest (opts\<lparr>prefix_ptr := Some optarg\<rparr>) w
          else if c = CHR ''h'' then exit_with EXIT_SUCCESS (printOptions w)
          else exit_with EXIT_FAILURE (emit (Stderr (Unknown_option c)) w))"
  by pat_completeness auto
termination
proof -
  have shrink: "getopt optstring args = Some (c, optarg, rest) \<Longrightarrow> argsize rest < argsize args"
    for optstring args c optarg rest
  proof (induction optstring args rule: getopt.induct)
    case (1 optstring)
    then show ?case by simp
  next
    case (2 optstring arg rest')
    then show ?case
      by (auto simp: argsize_def split: list.splits if_splits option.splits bool.splits)
  qed
  show ?thesis
    by (relation "measure (\<lambda>(args, opts, w). argsize args)") (auto dest: shrink)
qed

declare parseOptions_loop.simps [simp del]

text \<open>
  \<open>argv\<close> is the whole argument vector; scanning starts behind the program name. The third
  message repeats the first one, as in the source.
\<close>

definition parseOptions :: "string list \<Rightarrow> world \<Rightarrow> (string \<times> string \<times> string) result" where
  "parseOptions argv w =
     (case parseOptions_loop (tl argv) \<lparr>key_ptr = None, logfile_ptr = None, prefix_ptr = None\<rparr> w of
        Inl x \<Rightarrow> Inl x
      | Inr (opts, w) \<Rightarrow>
          (case (key_ptr opts, logfile_ptr opts, prefix_ptr opts) of
             (Some k, Some l, Some n) \<Rightarrow> Inr ((k, n, l), w)
           | (k, l, n) \<Rightarrow>
               exit_with EXIT_FAILURE
                 ((if n = None then emit (Stderr Key_not_set) else id)
                   ((if l = None then emit (Stderr Log_file_not_set) else id)
                     ((if k = None then emit (Stderr Key_not_set) else id) w)))))"


subsection \<open>\<^verbatim>\<open>open_files\<close>, \<^verbatim>\<open>close_files\<close> and \<^verbatim>\<open>sigint_handler\<close>\<close>

text \<open>
  \<^verbatim>\<open>snprintf(fname, n, ...)\<close> stores at most \<open>n - 1\<close> characters of the formatted text.
  \<open>format_02i\<close> is the conversion \<^verbatim>\<open>%02i\<close>: decimal, padded with zeros to two characters.
\<close>

definition snprintf :: "nat \<Rightarrow> string \<Rightarrow> string" where
  "snprintf n formatted = take (n - 1) formatted"

function decimal :: "nat \<Rightarrow> string" where
  "decimal n = (if n < 10 then [''0123456789'' ! n]
                else decimal (n div 10) @ [''0123456789'' ! (n mod 10)])"
  by pat_completeness auto
termination
  by (relation "measure id") auto

declare decimal.simps [simp del]

definition zero_pad :: "nat \<Rightarrow> string \<Rightarrow> string" where
  "zero_pad width digits = replicate (width - length digits) CHR ''0'' @ digits"

definition format_02i :: "int \<Rightarrow> string" where
  "format_02i i = (if i < 0 then CHR ''-'' # zero_pad 1 (decimal (nat (- i)))
                   else zero_pad 2 (decimal (nat i)))"

text \<open>
  Modelled from the spec: \<^verbatim>\<open>filterbank_create\<close> and \<^verbatim>\<open>filterbank_close\<close> live in
  \<^verbatim>\<open>filterbank.c\<close>, which is not under \<^verbatim>\<open>src/\<close>. \<^verbatim>\<open>filterbank_create\<close> opens the named
  output with the given header and returns its handle, a file descriptor that no other open
  output has; \<^verbatim>\<open>filterbank_close\<close> closes the handle.
\<close>

definition filterbank_create :: "filterbank_args \<Rightarrow> world \<Rightarrow> int \<times> world" where
  "filterbank_create a w =
     (next_fd w, (emit (Filterbank_create a (next_fd w)) w)\<lparr>next_fd := next_fd w + 1\<rparr>)"

definition filterbank_close :: "int \<Rightarrow> world \<Rightarrow> world" where
  "filterbank_close fd w = emit (Filterbank_close fd) w"

definition fsync :: "int \<Rightarrow> world \<Rightarrow> world" where
  "fsync fd w = emit (Fsync fd) w"

text \<open>\<^verbatim>\<open>write(fd, buffer, count)\<close> hands the first \<open>count\<close> bytes of the buffer over.\<close>

definition write_fd :: "int \<Rightarrow> byte list \<Rightarrow> nat \<Rightarrow> world \<Rightarrow> world" where
  "write_fd fd buffer count w = emit (Write fd (take count buffer)) w"

definition fname :: "string \<Rightarrow> int \<Rightarrow> nat \<Rightarrow> string" where
  "fname file_prefix ntabs_arg tab =
     (if ntabs_arg = 1 then snprintf 256 (file_prefix @ ''.fil'')
      else snprintf 256 (file_prefix @ ''_'' @ format_02i (int tab + 1) @ ''.fil''))"

text \<open>The arguments that \<^verbatim>\<open>open_files\<close> passes to \<^verbatim>\<open>filterbank_create\<close> for one beam.\<close>

definition create_args :: "string \<Rightarrow> int \<Rightarrow> globals \<Rightarrow> nat \<Rightarrow> filterbank_args" where
  "create_args file_prefix ntabs_arg g tab =
     \<lparr> file_name = fname file_prefix ntabs_arg tab,
       telescope_id = 10,
       machine_id = 15,
       fb_source_name = source_name g,
       fb_az_start = az_start g,
       fb_za_start = za_start g,
       src_raj = ra g,
       src_dej = dec g,
       tstart = mjd_start g,
       fb_tsamp = tsamp g,
       nbits = nbit,
       fch1 = min_frequency g,
       foff = - 1 * bandwidth g / real (unat nchannels),
       nchans = nchannels,
       nbeams = ntabs_arg,
       ibeam = int tab + 1,
       nifs = 1 \<rparr>"

definition open_files :: "string \<Rightarrow> int \<Rightarrow> globals \<Rightarrow> world \<Rightarrow> globals \<times> world" where
  "open_files file_prefix ntabs_arg g w =
     fold (\<lambda>tab (g, w).
            let (fd, w) = filterbank_create (create_args file_prefix ntabs_arg g tab) w
            in (g\<lparr>output_fds := (output_fds g)[tab := fd]\<rparr>, w))
          [0..<nat ntabs_arg] (g, w)"

definition close_files :: "globals \<Rightarrow> world \<Rightarrow> world" where
  "close_files g w =
     fold (\<lambda>tab w. filterbank_close (output_fds g ! tab) w) [0..<nat (ntabs g)] w"

definition sigint_handler :: "globals \<Rightarrow> world \<Rightarrow> exit_code \<times> world" where
  "sigint_handler g w =
     (EXIT_FAILURE,
      fold (\<lambda>i w. if output_fds g ! i \<noteq> 0
                   then filterbank_close (output_fds g ! i) (fsync (output_fds g ! i) w)
                   else w)
           [0..<nat (ntabs g)] (LOG Sigint_received w))"

subsection \<open>The copy loop of \<^verbatim>\<open>main\<close>\<close>

text \<open>
  The two index expressions of the innermost statement, in \<^verbatim>\<open>unsigned int\<close> arithmetic:
  \<^verbatim>\<open>time*nchannels+nchannels-channel-1\<close> and
  \<^verbatim>\<open>(tab*nchannels + channel) * padded_size + time\<close>.
\<close>

definition buffer_index :: "32 word \<Rightarrow> nat \<Rightarrow> nat \<Rightarrow> 32 word" where
  "buffer_index nch channel time = of_nat time * nch + nch - of_nat channel - 1"

definition page_index :: "32 word \<Rightarrow> 32 word \<Rightarrow> nat \<Rightarrow> nat \<Rightarrow> nat \<Rightarrow> 32 word" where
  "page_index nch padded tab channel time =
     (of_nat tab * nch + of_nat channel) * padded + of_nat time"

text \<open>
  The loop over \<open>time\<close> and the loop over \<open>channel\<close> around it, on the scratch buffer. They
  take the values of \<^verbatim>\<open>nchannels\<close>, \<^verbatim>\<open>padded_size\<close> and \<^verbatim>\<open>ntimes\<close> as arguments.
  A store behind the end of the buffer, undefined in C, would leave the list as it is; by
  the index arithmetic proved below every store of the program is inside.
\<close>

definition time_loop ::
  "32 word \<Rightarrow> 32 word \<Rightarrow> nat \<Rightarrow> page \<Rightarrow> nat \<Rightarrow> nat \<Rightarrow> byte list \<Rightarrow> byte list" where
  "time_loop nch padded nt page tab channel buffer =
     fold (\<lambda>time buffer. buffer[unat (buffer_index nch channel time) :=
                                page (unat (page_index nch padded tab channel time))])
          [0..<nt] buffer"

definition channel_loop ::
  "32 word \<Rightarrow> 32 word \<Rightarrow> nat \<Rightarrow> page \<Rightarrow> nat \<Rightarrow> byte list \<Rightarrow> byte list" where
  "channel_loop nch padded nt page tab buffer =
     fold (\<lambda>channel buffer. time_loop nch padded nt page tab channel buffer)
          [0..<unat nch] buffer"

text \<open>
  The loop over \<open>tab\<close>: fill the buffer for one beam, write it, go on to the next. The
  byte count \<^verbatim>\<open>sizeof(char) * ntimes * nchannels\<close> is computed in \<^verbatim>\<open>size_t\<close> and does not
  wrap.
\<close>

definition tab_loop :: "globals \<Rightarrow> page \<Rightarrow> byte list \<times> world \<Rightarrow> byte list \<times> world" where
  "tab_loop g page bw =
     fold (\<lambda>tab (buffer, w).
            let buffer = channel_loop nchannels (padded_size g) (nat (ntimes g)) page tab buffer
            in (buffer, write_fd (output_fds g ! tab) buffer (nat (ntimes g) * unat nchannels) w))
          [0..<nat (ntabs g)] bw"

text \<open>
  The \<^verbatim>\<open>while\<close> loop, on the answers the data block still has to give. It returns the
  buffer, the world, the page count, and the answers left over (none at end of data).
\<close>

fun main_loop ::
  "globals \<Rightarrow> page option list \<Rightarrow> byte list \<Rightarrow> world \<Rightarrow> int
     \<Rightarrow> (byte list \<times> world \<times> int) \<times> page option list" where
  "main_loop g [] buffer w page_count = ((buffer, w, page_count), [])"
| "main_loop g (None # rest) buffer w page_count = ((buffer, w, page_count), rest)"
| "main_loop g (Some page # rest) buffer w page_count =
     (let (buffer, w) = tab_loop g page (buffer, w)
      in main_loop g rest buffer (emit Ipcbuf_mark_cleared w) (page_count + 1))"

subsection \<open>\<^verbatim>\<open>main\<close>\<close>

definition main_science_case :: "globals \<Rightarrow> world \<Rightarrow> globals result" where
  "main_science_case g w =
     (if science_case g = 3 then Inr (g\<lparr>ntimes := 12500, tsamp := 1.024 / 12500\<rparr>, w)
      else if science_case g = 4 then Inr (g\<lparr>ntimes := 25000, tsamp := 1.024 / 25000\<rparr>, w)
      else exit_with EXIT_FAILURE (LOG (Illegal_science_case (science_mode g)) w))"

definition main_science_mode :: "globals \<Rightarrow> world \<Rightarrow> globals result" where
  "main_science_mode g w =
     (if science_mode g = 0 then Inr (g\<lparr>ntabs := 12\<rparr>, LOG Mode_I_TAB w)
      else if science_mode g = 2 then Inr (g\<lparr>ntabs := 1\<rparr>, LOG Mode_I_IAB w)
      else if science_mode g = 1 \<or> science_mode g = 3
        then exit_with EXIT_FAILURE (LOG Modes_not_supported w)
      else exit_with EXIT_FAILURE (LOG (Illegal_science_mode (science_mode g)) w))"

text \<open>
  \<^verbatim>\<open>malloc\<close> returns memory with whatever bytes the heap holds. Its argument
  \<^verbatim>\<open>ntimes * nchannels * sizeof(char)\<close> is multiplied in \<^verbatim>\<open>unsigned int\<close> first.
\<close>

definition malloc :: "env \<Rightarrow> nat \<Rightarrow> byte list" where
  "malloc e n = map (heap e) [0..<n]"

text \<open>
  A run of \<^verbatim>\<open>main\<close> in which no signal arrives from outside. \<open>main_body\<close> is
  \<^verbatim>\<open>main\<close> from the test of the science case on, \<open>main_run\<close> from the call of
  \<^verbatim>\<open>open_files\<close> to the end; falling off the end of \<^verbatim>\<open>main\<close> returns 0.

  When \<^verbatim>\<open>fopen\<close> of the log file fails, \<^verbatim>\<open>runlog\<close> is \<^verbatim>\<open>NULL\<close> and the \<^verbatim>\<open>LOG\<close> that
  reports it prints to standard output and then calls \<^verbatim>\<open>fprintf(runlog, ...)\<close> on the null
  stream: the process is killed there and never reaches \<^verbatim>\<open>exit(EXIT_FAILURE)\<close>.
\<close>

definition main_run :: "string \<Rightarrow> env \<Rightarrow> globals \<Rightarrow> world \<Rightarrow> exit_code \<times> world" where
  "main_run file_prefix e g w =
     (let (g, w) = open_files file_prefix (ntabs g) g w;
          w = emit Signal_sigint w;
          buffer = malloc e (unat (of_int (ntimes g) * nchannels));
          ((buffer, w, page_count), rest) = main_loop g (data_block e) buffer w 0;
          w = (if rest = [] then LOG End_of_data w else w);
          w = LOG (Read_pages page_count) (emit Disconnect w)
      in (EXIT_SUCCESS, w))"

definition main_body :: "string \<Rightarrow> env \<Rightarrow> globals \<Rightarrow> world \<Rightarrow> exit_code \<times> world" where
  "main_body file_prefix e g w =
     (case main_science_case g w of
        Inl x \<Rightarrow> x
      | Inr (g, w) \<Rightarrow>
         (case main_science_mode g
                 (LOG (Filename_prefix file_prefix)
                   (LOG (Science_case (science_case g)) (LOG Version w))) of
            Inl x \<Rightarrow> x
          | Inr (g, w) \<Rightarrow> main_run file_prefix e g w))"

definition main :: "string list \<Rightarrow> env \<Rightarrow> exit_code \<times> world" where
  "main argv e =
     (case parseOptions argv \<lparr>events = [], next_fd = first_fd e\<rparr> of
        Inl x \<Rightarrow> x
      | Inr ((key, file_prefix, logfile), w) \<Rightarrow>
          (if \<not> logfile_opens e then (SIGSEGV, emit (Stdout (Error_opening_logfile logfile)) w)
           else
            (case init_ringbuffer key e initial_globals (LOG (Logging_to_logfile logfile) w) of
               Inl x \<Rightarrow> x
             | Inr (g, w) \<Rightarrow> main_body file_prefix e g w)))"

text \<open>
  The runs that get as far as the science case: the command line is complete, the log file
  opens, and the ring buffer connects, locks, hands over a header block and takes it back.
\<close>

definition startup_ok :: "string list \<Rightarrow> env \<Rightarrow> bool" where
  "startup_ok argv e \<longleftrightarrow>
     (case parseOptions argv \<lparr>events = [], next_fd = first_fd e\<rparr> of
        Inl x \<Rightarrow> False | Inr x \<Rightarrow> True) \<and>
     logfile_opens e \<and> connect_ok e \<and> lock_read_ok e \<and>
     (case header_block e of None \<Rightarrow> False | Some h \<Rightarrow> True) \<and> header_cleared_ok e"

subsection \<open>Reading the record of a run\<close>

fun created_files :: "event list \<Rightarrow> string list" where
  "created_files [] = []"
| "created_files (Filterbank_create a fd # evs) = file_name a # created_files evs"
| "created_files (ev # evs) = created_files evs"

fun written :: "int \<Rightarrow> event list \<Rightarrow> byte list list" where
  "written fd [] = []"
| "written fd (Write fd' block # evs) =
     (if fd' = fd then block # written fd evs else written fd evs)"
| "written fd (ev # evs) = written fd evs"

fun closed :: "event list \<Rightarrow> int list" where
  "closed [] = []"
| "closed (Filterbank_close fd # evs) = fd # closed evs"
| "closed (ev # evs) = closed evs"

fun synced :: "event list \<Rightarrow> int list" where
  "synced [] = []"
| "synced (Fsync fd # evs) = fd # synced evs"
| "synced (ev # evs) = synced evs"

text \<open>The calls that act on the output files, and a record behind earlier events.\<close>

fun is_file_event :: "event \<Rightarrow> bool" where
  "is_file_event (Filterbank_create a fd) = True"
| "is_file_event (Write fd block) = True"
| "is_file_event (Fsync fd) = True"
| "is_file_event (Filterbank_close fd) = True"
| "is_file_event ev = False"

definition file_events :: "event list \<Rightarrow> event list" where
  "file_events evs = filter is_file_event evs"

definition after :: "event list \<Rightarrow> world \<Rightarrow> world" where
  "after pre w = w\<lparr>events := pre @ events w\<rparr>"

text \<open>
  A complete command line, and an environment in which everything outside the program works:
  the inputs at which the theorems below are instantiated.
\<close>

definition example_argv :: "string list" where
  "example_argv = [''dadafilterbank'', ''-k'', ''dada'', ''-l'', ''log.txt'', ''-n'', ''myobs'']"

definition example_header :: "(string \<rightharpoonup> 32 word) \<Rightarrow> header" where
  "example_header ints = \<lparr>hdr_lf = Map.empty, hdr_s = Map.empty, hdr_i = ints\<rparr>"

definition example_env :: "header \<Rightarrow> page option list \<Rightarrow> env" where
  "example_env h answers =
     \<lparr> logfile_opens = True, connect_ok = True, lock_read_ok = True,
       header_block = Some h, header_cleared_ok = True,
       data_block = answers, heap = (\<lambda>i. 0), first_fd = 3 \<rparr>"

text \<open>The index map of the file layout in the words of the specification.\<close>

definition spec_index :: "nat \<Rightarrow> nat \<Rightarrow> nat \<Rightarrow> nat" where
  "spec_index channelCount c t = t * channelCount + (channelCount - 1 - c)"

definition spec_cell :: "nat \<Rightarrow> nat \<Rightarrow> nat \<Rightarrow> nat \<Rightarrow> nat \<Rightarrow> nat" where
  "spec_cell channelCount paddedTimeSize b c t = (b * channelCount + c) * paddedTimeSize + t"


section \<open>The copy loop\<close>

subsection \<open>Index arithmetic\<close>

text \<open>
  As long as the scratch buffer has at most \<open>2 ^ 32\<close> bytes, the \<^verbatim>\<open>unsigned int\<close> index
  into it is the index of the specification. The index into the page is the offset of the
  cell only while that offset is below \<open>2 ^ 32\<close>.
\<close>

lemma unat_buffer_index:
  assumes "nt * unat nch \<le> 2 ^ 32" "channel < unat nch" "time < nt"
  shows "unat (buffer_index nch channel time) = spec_index (unat nch) channel time"
proof -
  let ?C = "unat nch"
  have le: "(time + 1) * ?C \<le> nt * ?C"
    using assms(3) by (intro mult_le_mono1) simp
  have lt: "time * ?C + (?C - 1 - channel) < 2 ^ 32"
    using assms le by (simp add: algebra_simps)
  have "buffer_index nch channel time = of_nat (time * ?C + (?C - 1 - channel))"
    using assms(2) by (simp add: buffer_index_def)
  then show ?thesis using lt
    unfolding spec_index_def by (intro of_nat_inverse) simp_all
qed

lemma unat_page_index:
  assumes "spec_cell (unat nch) (unat padded) tab channel time < 2 ^ 32"
  shows "unat (page_index nch padded tab channel time) =
         spec_cell (unat nch) (unat padded) tab channel time"
proof -
  have "page_index nch padded tab channel time =
        of_nat ((tab * unat nch + channel) * unat padded + time)"
    by (simp add: page_index_def)
  then show ?thesis using assms
    unfolding spec_cell_def by (intro of_nat_inverse) simp_all
qed

lemma spec_index_less:
  assumes "c < C" "t < T"
  shows "spec_index C c t < T * C"
proof -
  have "(t + 1) * C \<le> T * C"
    using assms(2) by (intro mult_le_mono1) simp
  then show ?thesis
    using assms(1) by (simp add: spec_index_def)
qed

lemma spec_index_inj:
  assumes "c < C" "c' < C" "spec_index C c t = spec_index C c' t'"
  shows "c = c' \<and> t = t'"
proof -
  have e: "t * C + (C - 1 - c) = t' * C + (C - 1 - c')"
    using assms(3) by (simp add: spec_index_def)
  have r: "C - 1 - c < C" "C - 1 - c' < C"
    using assms by simp_all
  from e have "(t * C + (C - 1 - c)) div C = (t' * C + (C - 1 - c')) div C"
    by simp
  with r have t: "t = t'" by simp
  with e have "C - 1 - c = C - 1 - c'" by simp
  with assms(1,2) have "c = c'" by simp
  with t show ?thesis by simp
qed

lemma spec_index_surj:
  assumes "k < T * C"
  shows "\<exists>c t. c < C \<and> t < T \<and> spec_index C c t = k"
proof -
  have C: "0 < C" using assms by (cases C) simp_all
  let ?t = "k div C" and ?c = "C - 1 - k mod C"
  have m: "k mod C < C" using C by simp
  have "?t < T" using assms C by (simp add: less_mult_imp_div_less)
  moreover have "?c < C" using C by simp
  moreover have "spec_index C ?c ?t = k"
    using m by (simp add: spec_index_def)
  ultimately show ?thesis by blast
qed



lemma length_fold_update:
  "length (fold (\<lambda>x b. b[f x := g x]) xs buf) = length buf"
  by (induction xs arbitrary: buf) simp_all

lemma fold_update_other:
  "\<forall>x \<in> set xs. f x \<noteq> k \<Longrightarrow> fold (\<lambda>x b. b[f x := g x]) xs buf ! k = buf ! k"
  by (induction xs arbitrary: buf) simp_all

lemma fold_update_nth:
  "inj_on f (set xs) \<Longrightarrow> x \<in> set xs \<Longrightarrow> f x < length buf \<Longrightarrow>
   fold (\<lambda>x b. b[f x := g x]) xs buf ! f x = g x"
proof (induction xs arbitrary: buf)
  case Nil
  then show ?case by simp
next
  case (Cons y ys)
  show ?case
  proof (cases "x \<in> set ys")
    case True
    moreover have "inj_on f (set ys)"
      using Cons.prems(1) by (auto simp: inj_on_def)
    ultimately show ?thesis
      using Cons.IH [of "buf[f y := g y]"] Cons.prems(3) by simp
  next
    case False
    with Cons.prems(2) have xy: "x = y" by simp
    have "\<forall>z \<in> set ys. f z \<noteq> f y"
    proof
      fix z assume z: "z \<in> set ys"
      with False xy have "z \<noteq> y" by auto
      with z Cons.prems(1) show "f z \<noteq> f y" by (auto simp: inj_on_def)
    qed
    then have "fold (\<lambda>x b. b[f x := g x]) ys (buf[f y := g y]) ! f y = buf[f y := g y] ! f y"
      by (rule fold_update_other)
    with xy Cons.prems(3) show ?thesis by simp
  qed
qed

lemma fold_pairs:
  "fold (\<lambda>c. fold (\<lambda>t. h (c, t)) ts) cs buf =
   fold h (concat (map (\<lambda>c. map (Pair c) ts) cs)) buf"
  by (induction cs arbitrary: buf) (simp_all add: fold_map comp_def)

lemma channel_loop_flat:
  "channel_loop nch padded nt page tab buffer =
   fold (\<lambda>x b. b[unat (buffer_index nch (fst x) (snd x)) :=
                 page (unat (page_index nch padded tab (fst x) (snd x)))])
        (concat (map (\<lambda>c. map (Pair c) [0..<nt]) [0..<unat nch])) buffer"
  unfolding channel_loop_def time_loop_def
  by (subst fold_pairs [symmetric]) simp

lemma length_channel_loop:
  "length (channel_loop nch padded nt page tab buffer) = length buffer"
  by (simp add: channel_loop_flat length_fold_update)

lemma channel_loop_nth:
  assumes "nt * unat nch \<le> 2 ^ 32" "length buffer = nt * unat nch"
    "channel < unat nch" "time < nt"
  shows "channel_loop nch padded nt page tab buffer ! spec_index (unat nch) channel time =
         page (unat (page_index nch padded tab channel time))"
proof -
  let ?f = "\<lambda>x. unat (buffer_index nch (fst x) (snd x))"
  let ?g = "\<lambda>x. page (unat (page_index nch padded tab (fst x) (snd x)))"
  let ?cells = "concat (map (\<lambda>c. map (Pair c) [0..<nt]) [0..<unat nch])"
  have cells: "set ?cells = {..<unat nch} \<times> {..<nt}"
    by (auto simp: image_iff)
  have "fold (\<lambda>x b. b[?f x := ?g x]) ?cells buffer ! ?f (channel, time) = ?g (channel, time)"
  proof (rule fold_update_nth)
    show "inj_on ?f (set ?cells)"
      unfolding cells
    proof (rule inj_onI)
      fix x y :: "nat \<times> nat"
      assume "x \<in> {..<unat nch} \<times> {..<nt}" and "y \<in> {..<unat nch} \<times> {..<nt}"
      then have b: "fst x < unat nch" "snd x < nt" "fst y < unat nch" "snd y < nt"
        by auto
      assume "?f x = ?f y"
      then have "spec_index (unat nch) (fst x) (snd x) = spec_index (unat nch) (fst y) (snd y)"
        by (simp only: unat_buffer_index [OF assms(1) b(1,2)]
            unat_buffer_index [OF assms(1) b(3,4)])
      from spec_index_inj [OF b(1,3) this] show "x = y"
        by (simp add: prod_eq_iff)
    qed
    show "(channel, time) \<in> set ?cells"
      unfolding cells using assms(3,4) by simp
    show "?f (channel, time) < length buffer"
      using spec_index_less [OF assms(3,4)] assms(2)
      by (simp add: unat_buffer_index [OF assms(1,3,4)])
  qed
  then show ?thesis
    by (simp add: channel_loop_flat unat_buffer_index [OF assms(1,3,4)])
qed

lemma channel_loop_cong:
  assumes "nt * unat nch \<le> 2 ^ 32"
    "length buffer = nt * unat nch" "length buffer' = nt * unat nch"
    "\<And>c t. c < unat nch \<Longrightarrow> t < nt \<Longrightarrow>
       page (unat (page_index nch padded tab c t)) = page' (unat (page_index nch padded tab c t))"
  shows "channel_loop nch padded nt page tab buffer = channel_loop nch padded nt page' tab buffer'"
proof (rule nth_equalityI)
  show "length (channel_loop nch padded nt page tab buffer) =
        length (channel_loop nch padded nt page' tab buffer')"
    using assms(2,3) by (simp add: length_channel_loop)
next
  fix k assume "k < length (channel_loop nch padded nt page tab buffer)"
  then have "k < nt * unat nch"
    using assms(2) by (simp add: length_channel_loop)
  from spec_index_surj [OF this] obtain c t
    where ct: "c < unat nch" "t < nt" "spec_index (unat nch) c t = k" by blast
  have "channel_loop nch padded nt page tab buffer ! spec_index (unat nch) c t =
        channel_loop nch padded nt page' tab buffer' ! spec_index (unat nch) c t"
    using assms(4) [OF ct(1,2)]
    by (simp add: channel_loop_nth [OF assms(1,2) ct(1,2)] channel_loop_nth [OF assms(1,3) ct(1,2)])
  with ct(3) show "channel_loop nch padded nt page tab buffer ! k =
                   channel_loop nch padded nt page' tab buffer' ! k"
    by simp
qed

subsection \<open>What a beam's block holds\<close>

text \<open>
  While the byte offset \<open>(b * channelCount + c) * paddedTimeSize + t\<close> of a cell is below
  \<open>2 ^ 32\<close>, the block produced for beam \<open>b\<close> holds at
  \<open>t * channelCount + (channelCount - 1 - c)\<close> the byte of the page at that offset; the
  program's 1536 channels and 12500 samples per page are an instance.
\<close>

lemma transcode_cell:
  assumes "nt * unat nch \<le> 2 ^ 32" and "length buffer = nt * unat nch"
    and "c < unat nch" and "t < nt"
    and "(b * unat nch + c) * unat padded + t < 2 ^ 32"
  shows "channel_loop nch padded nt page b buffer ! (t * unat nch + (unat nch - 1 - c)) =
         page ((b * unat nch + c) * unat padded + t)"
proof -
  have "spec_cell (unat nch) (unat padded) b c t < 2 ^ 32"
    using assms(5) by (simp add: spec_cell_def)
  from unat_page_index [OF this] channel_loop_nth [OF assms(1-4), of padded page b]
  show ?thesis
    by (simp add: spec_index_def spec_cell_def)
qed

lemma transcode_cell_example:
  "channel_loop nchannels 12500 12500 (\<lambda>i. of_nat i) 0 (replicate 19200000 0)
     ! (3 * 1536 + (1536 - 1 - 5)) = of_nat ((0 * 1536 + 5) * 12500 + 3)"
  using transcode_cell [of 12500 nchannels "replicate 19200000 0" 5 3 0 12500 "\<lambda>i. of_nat i"]
  by (simp add: nchannels_def)

text \<open>
  \<^bold>\<open>C1\<close>. The claim is that for every page of shape
  \<open>[beamCount][channelCount][paddedTimeSize]\<close> the block of beam \<open>b\<close> holds at
  \<open>t * channelCount + (channelCount - 1 - c)\<close> the byte
  \<open>page[(b * channelCount + c) * paddedTimeSize + t]\<close>. The code computes that offset in
  \<^verbatim>\<open>unsigned int\<close> and does not check it: with twelve beams and a padded size of 233030
  the offset of cell \<open>(11, 1535, 0)\<close> is \<open>4294975930\<close>, the C expression wraps to \<open>8634\<close>,
  and the block gets the byte found there, which in this page is another one.
\<close>

theorem page_offset_wraps:
  "channel_loop nchannels 233030 12500 (\<lambda>i. if i = 8634 then 1 else 0) 11
       (replicate 19200000 0) ! (0 * 1536 + (1536 - 1 - 1535))
     = (\<lambda>i::nat. if i = 8634 then 1 else 0) 8634 \<and>
   channel_loop nchannels 233030 12500 (\<lambda>i. if i = 8634 then 1 else 0) 11
       (replicate 19200000 0) ! (0 * 1536 + (1536 - 1 - 1535))
   \<noteq> (\<lambda>i::nat. if i = 8634 then 1 else 0) ((11 * 1536 + 1535) * 233030 + 0)"
proof -
  have "channel_loop nchannels 233030 12500 (\<lambda>i. if i = 8634 then 1 else 0) 11
          (replicate 19200000 0) ! spec_index (unat nchannels) 1535 0
        = (\<lambda>i. if i = 8634 then 1 else 0) (unat (page_index nchannels 233030 11 1535 0))"
    by (rule channel_loop_nth) (simp_all add: nchannels_def)
  moreover have "unat (page_index nchannels 233030 11 1535 0) = 8634"
    by (simp add: page_index_def nchannels_def)
  ultimately show ?thesis
    by (simp add: spec_index_def nchannels_def)
qed

text \<open>
  While every cell \<open>(b, c, t)\<close> with \<open>t < samplesPerPage\<close> has a byte offset below
  \<open>2 ^ 32\<close>, two pages that agree on all these cells give the same block for every beam,
  whatever else they hold and whatever the scratch buffer held before; two pages of the
  program's shape that differ in one padding byte are an instance.
\<close>

lemma padding_never_read:
  assumes "nt * unat nch \<le> 2 ^ 32"
    and "length buffer = nt * unat nch" and "length buffer' = nt * unat nch"
    and "tab < nb"
    and "\<forall>b<nb. \<forall>c<unat nch. \<forall>t<nt. (b * unat nch + c) * unat padded + t < 2 ^ 32"
    and "\<forall>b<nb. \<forall>c<unat nch. \<forall>t<nt.
           page ((b * unat nch + c) * unat padded + t) =
           page' ((b * unat nch + c) * unat padded + t)"
  shows "channel_loop nch padded nt page tab buffer =
         channel_loop nch padded nt page' tab buffer'"
proof (rule channel_loop_cong [OF assms(1-3)])
  fix c t assume ct: "c < unat nch" "t < nt"
  with assms(4,5) have "spec_cell (unat nch) (unat padded) tab c t < 2 ^ 32"
    by (simp add: spec_cell_def)
  from unat_page_index [OF this] assms(4,6) ct
  show "page (unat (page_index nch padded tab c t)) =
        page' (unat (page_index nch padded tab c t))"
    by (simp add: spec_cell_def)
qed

lemma padding_never_read_example:
  "channel_loop nchannels 12504 12500 (\<lambda>i. 0) 0 (replicate 19200000 0) =
   channel_loop nchannels 12504 12500 (\<lambda>i. if i = 12500 then 1 else 0) 0
     (replicate 19200000 0)"
proof (rule padding_never_read [where nb = 1])
  show "\<forall>b<1. \<forall>c<unat nchannels. \<forall>t<12500.
          (b * unat nchannels + c) * unat (12504 :: 32 word) + t < 2 ^ 32"
    by (simp add: nchannels_def)
  show "\<forall>b<1. \<forall>c<unat nchannels. \<forall>t<12500.
          (\<lambda>i. 0 :: byte) ((b * unat nchannels + c) * unat (12504 :: 32 word) + t) =
          (\<lambda>i. if i = 12500 then 1 else 0) ((b * unat nchannels + c) * unat (12504 :: 32 word) + t)"
  proof (intro allI impI)
    fix b c t :: nat
    assume "b < 1" "c < unat nchannels" "t < 12500"
    then have "(b * unat nchannels + c) * unat (12504 :: 32 word) + t \<noteq> 12500"
      by (cases c) simp_all
    then show "(\<lambda>i. 0 :: byte) ((b * unat nchannels + c) * unat (12504 :: 32 word) + t) =
          (\<lambda>i. if i = 12500 then 1 else 0) ((b * unat nchannels + c) * unat (12504 :: 32 word) + t)"
      by simp
  qed
qed (simp_all add: nchannels_def)

text \<open>
  \<^bold>\<open>C5\<close>. The claim is that padding bytes are never read: two pages that agree on every
  cell \<open>(b, c, t)\<close> with \<open>t < samplesPerPage\<close> give the same blocks. The unchecked
  \<^verbatim>\<open>unsigned int\<close> offset breaks it: with twelve beams and a padded size of 233030 the
  wrapped offset of cell \<open>(11, 1535, 3866)\<close> is \<open>12500\<close>, the first padding byte of cell row
  \<open>(0, 0)\<close>. The page of zeros and the page that differs from it in that one padding byte
  agree on every cell and give different blocks for beam 11.
\<close>

theorem padding_read_after_wrap:
  "\<not> ((\<forall>b<12. \<forall>c<1536. \<forall>t<12500.
          (\<lambda>i::nat. 0 :: byte) ((b * 1536 + c) * 233030 + t) =
          (\<lambda>i::nat. if i = 12500 then 1 else 0) ((b * 1536 + c) * 233030 + t)) \<longrightarrow>
       channel_loop nchannels 233030 12500 (\<lambda>i. 0) 11 (replicate 19200000 0) =
       channel_loop nchannels 233030 12500 (\<lambda>i. if i = 12500 then 1 else 0) 11
         (replicate 19200000 0))"
proof -
  let ?p = "\<lambda>i::nat. 0 :: byte" and ?q = "\<lambda>i::nat. if i = 12500 then 1 else 0 :: byte"
  have agree: "\<forall>b<12. \<forall>c<1536. \<forall>t<12500.
      ?p ((b * 1536 + c) * 233030 + t) = ?q ((b * 1536 + c) * 233030 + t)"
  proof (intro allI impI)
    fix b c t :: nat
    assume "b < 12" "c < 1536" "t < 12500"
    then have "(b * 1536 + c) * 233030 + t \<noteq> 12500"
      by (cases "b * 1536 + c") simp_all
    then show "?p ((b * 1536 + c) * 233030 + t) = ?q ((b * 1536 + c) * 233030 + t)"
      by simp
  qed
  have i: "unat (page_index nchannels 233030 11 1535 3866) = 12500"
    by (simp add: page_index_def nchannels_def)
  have "channel_loop nchannels 233030 12500 ?p 11 (replicate 19200000 0)
          ! spec_index (unat nchannels) 1535 3866
        = ?p (unat (page_index nchannels 233030 11 1535 3866))"
    by (rule channel_loop_nth) (simp_all add: nchannels_def)
  moreover have "channel_loop nchannels 233030 12500 ?q 11 (replicate 19200000 0)
          ! spec_index (unat nchannels) 1535 3866
        = ?q (unat (page_index nchannels 233030 11 1535 3866))"
    by (rule channel_loop_nth) (simp_all add: nchannels_def)
  ultimately have "channel_loop nchannels 233030 12500 ?p 11 (replicate 19200000 0) \<noteq>
        channel_loop nchannels 233030 12500 ?q 11 (replicate 19200000 0)"
    using i by auto
  with agree show ?thesis by blast
qed

text \<open>The two pages agree on every cell, so their blocks for beam 11 differ.\<close>

theorem padding_read_after_wrap_witness:
  "channel_loop nchannels 233030 12500 (\<lambda>i. 0) 11 (replicate 19200000 0) \<noteq>
   channel_loop nchannels 233030 12500 (\<lambda>i. if i = 12500 then 1 else 0) 11
     (replicate 19200000 0)"
  using padding_read_after_wrap by blast



section \<open>Records of a run\<close>

lemma created_files_append [simp]:
  "created_files (xs @ ys) = created_files xs @ created_files ys"
  by (induction xs rule: created_files.induct) simp_all

lemma written_append [simp]: "written fd (xs @ ys) = written fd xs @ written fd ys"
  by (induction fd xs rule: written.induct) simp_all

lemma closed_append [simp]: "closed (xs @ ys) = closed xs @ closed ys"
  by (induction xs rule: closed.induct) simp_all

lemma synced_append [simp]: "synced (xs @ ys) = synced xs @ synced ys"
  by (induction xs rule: synced.induct) simp_all

lemma file_events_append [simp]: "file_events (xs @ ys) = file_events xs @ file_events ys"
  by (simp add: file_events_def)

lemma events_after [simp]: "events (after pre w) = pre @ events w"
  by (simp add: after_def)

lemma next_fd_after [simp]: "next_fd (after pre w) = next_fd w"
  by (simp add: after_def)

lemma after_Nil: "after [] w = w"
  by (simp add: after_def)

section \<open>The command line\<close>

lemma getopt_char:
  "getopt optstring args = Some (c, optarg, rest) \<Longrightarrow>
   c = CHR ''?'' \<or> optstring_lookup optstring c \<noteq> None"
proof (induction optstring args rule: getopt.induct)
  case (1 optstring)
  then show ?case by simp
next
  case (2 optstring arg rest')
  then show ?case
    by (auto split: list.splits if_splits option.splits bool.splits)
qed

lemma getopt_not_h: "getopt ''b:c:m:k:l:n:'' args \<noteq> Some (CHR ''h'', optarg, rest)"
proof
  assume "getopt ''b:c:m:k:l:n:'' args = Some (CHR ''h'', optarg, rest)"
  from getopt_char [OF this] show False by simp
qed

lemma parseOptions_loop_Inl:
  "parseOptions_loop args opts w = Inl (c, w') \<Longrightarrow>
   c = EXIT_FAILURE \<and> (\<exists>ch. w' = emit (Stderr (Unknown_option ch)) w)"
proof (induction args opts w rule: parseOptions_loop.induct)
  case (1 args opts w)
  show ?case
  proof (cases "getopt ''b:c:m:k:l:n:'' args")
    case None
    with "1.prems" show ?thesis by (simp add: parseOptions_loop.simps)
  next
    case (Some r)
    obtain ch optarg rest where r: "r = (ch, optarg, rest)" by (cases r)
    have nh: "ch \<noteq> CHR ''h''" using Some r getopt_not_h by auto
    show ?thesis
      using "1.prems" "1.IH" [OF Some [unfolded r]] nh Some r
      by (auto simp: parseOptions_loop.simps [of args] exit_with_def split: if_splits)
  qed
qed

lemma parseOptions_loop_Inr:
  "parseOptions_loop args opts w = Inr (opts', w') \<Longrightarrow> w' = w"
proof (induction args opts w rule: parseOptions_loop.induct)
  case (1 args opts w)
  show ?case
  proof (cases "getopt ''b:c:m:k:l:n:'' args")
    case None
    with "1.prems" show ?thesis by (simp add: parseOptions_loop.simps)
  next
    case (Some r)
    obtain ch optarg rest where r: "r = (ch, optarg, rest)" by (cases r)
    show ?thesis
      using "1.prems" "1.IH" [OF Some [unfolded r]] Some r
      by (auto simp: parseOptions_loop.simps [of args] exit_with_def split: if_splits)
  qed
qed

lemma parseOptions_Inr: "parseOptions argv w = Inr (x, w') \<Longrightarrow> w' = w"
  by (auto simp: parseOptions_def exit_with_def
      split: sum.splits prod.splits option.splits dest: parseOptions_loop_Inr)

lemma parseOptions_Inl:
  assumes "parseOptions argv w = Inl (c, w')"
  shows "c = EXIT_FAILURE \<and> file_events (events w') = file_events (events w) \<and>
         created_files (events w') = created_files (events w)"
proof (cases "parseOptions_loop (tl argv) \<lparr>key_ptr = None, logfile_ptr = None, prefix_ptr = None\<rparr> w")
  case (Inl x)
  obtain c' w'' where x: "x = (c', w'')" by (cases x)
  from parseOptions_loop_Inl [OF Inl [unfolded x]] assms Inl x show ?thesis
    by (auto simp: parseOptions_def emit_def file_events_def)
next
  case (Inr y)
  obtain opts w'' where y: "y = (opts, w'')" by (cases y)
  from parseOptions_loop_Inr [OF Inr [unfolded y]] have "w'' = w" .
  with assms Inr y show ?thesis
    by (auto simp: parseOptions_def exit_with_def emit_def file_events_def
        split: option.splits)
qed

section \<open>The ring buffer header\<close>

lemma init_ringbuffer_Inl:
  "init_ringbuffer key e g w = Inl (c, w') \<Longrightarrow>
   c = EXIT_FAILURE \<and> file_events (events w') = file_events (events w) \<and>
   created_files (events w') = created_files (events w)"
  by (auto simp: init_ringbuffer_def exit_with_def LOG_def emit_def file_events_def Let_def
      split: if_splits option.splits)

lemma init_ringbuffer_startup:
  assumes "connect_ok e" "lock_read_ok e" "header_block e = Some h" "header_cleared_ok e"
  shows "init_ringbuffer key e g w =
         Inr (parse_header h g, LOG (Psrdada_header h) (LOG (Shmkey key) w))"
  using assms by (simp add: init_ringbuffer_def)

lemma init_ringbuffer_Inr:
  "init_ringbuffer key e g w = Inr (g', w') \<Longrightarrow>
   \<exists>h. header_block e = Some h \<and> g' = parse_header h g \<and>
       w' = LOG (Psrdada_header h) (LOG (Shmkey key) w)"
  by (auto simp: init_ringbuffer_def exit_with_def Let_def split: if_splits option.splits)

section \<open>Opening the files\<close>

lemma open_files_upt:
  "\<exists>out. fold (\<lambda>tab (g, w).
              let (fd, w) = filterbank_create (create_args file_prefix n g tab) w
              in (g\<lparr>output_fds := (output_fds g)[tab := fd]\<rparr>, w)) [0..<k] (g, w) =
         (g\<lparr>output_fds := out\<rparr>,
          w\<lparr>events := events w @
                 map (\<lambda>tab. Filterbank_create (create_args file_prefix n g tab)
                               (next_fd w + int tab)) [0..<k],
            next_fd := next_fd w + int k\<rparr>) \<and>
         length out = length (output_fds g) \<and>
         (\<forall>tab<k. tab < length out \<longrightarrow> out ! tab = next_fd w + int tab)"
proof (induction k)
  case 0
  show ?case by (intro exI [of _ "output_fds g"]) simp
next
  case (Suc k)
  then obtain out where
    f: "fold (\<lambda>tab (g, w).
              let (fd, w) = filterbank_create (create_args file_prefix n g tab) w
              in (g\<lparr>output_fds := (output_fds g)[tab := fd]\<rparr>, w)) [0..<k] (g, w) =
         (g\<lparr>output_fds := out\<rparr>,
          w\<lparr>events := events w @
                 map (\<lambda>tab. Filterbank_create (create_args file_prefix n g tab)
                               (next_fd w + int tab)) [0..<k],
            next_fd := next_fd w + int k\<rparr>)"
    and l: "length out = length (output_fds g)"
    and o: "\<forall>tab<k. tab < length out \<longrightarrow> out ! tab = next_fd w + int tab"
    by blast
  have a: "create_args file_prefix n (g\<lparr>output_fds := out\<rparr>) k = create_args file_prefix n g k"
    by (simp add: create_args_def)
  show ?case
  proof (intro exI [of _ "out[k := next_fd w + int k]"] conjI)
    show "fold (\<lambda>tab (g, w).
              let (fd, w) = filterbank_create (create_args file_prefix n g tab) w
              in (g\<lparr>output_fds := (output_fds g)[tab := fd]\<rparr>, w)) [0..<Suc k] (g, w) =
         (g\<lparr>output_fds := out[k := next_fd w + int k]\<rparr>,
          w\<lparr>events := events w @
                 map (\<lambda>tab. Filterbank_create (create_args file_prefix n g tab)
                               (next_fd w + int tab)) [0..<Suc k],
            next_fd := next_fd w + int (Suc k)\<rparr>)"
    proof -
      let ?step = "\<lambda>tab (g, w).
              let (fd, w) = filterbank_create (create_args file_prefix n g tab) w
              in (g\<lparr>output_fds := (output_fds g)[tab := fd]\<rparr>, w)"
      have "fold ?step [0..<Suc k] (g, w) = ?step k (fold ?step [0..<k] (g, w))"
        by simp
      also have "\<dots> = ?step k (g\<lparr>output_fds := out\<rparr>,
          w\<lparr>events := events w @
                 map (\<lambda>tab. Filterbank_create (create_args file_prefix n g tab)
                               (next_fd w + int tab)) [0..<k],
            next_fd := next_fd w + int k\<rparr>)"
        by (simp only: f)
      also have "\<dots> = (g\<lparr>output_fds := out[k := next_fd w + int k]\<rparr>,
          w\<lparr>events := events w @
                 map (\<lambda>tab. Filterbank_create (create_args file_prefix n g tab)
                               (next_fd w + int tab)) [0..<Suc k],
            next_fd := next_fd w + int (Suc k)\<rparr>)"
        by (simp add: a filterbank_create_def emit_def)
      finally show ?thesis .
    qed
    show "length (out[k := next_fd w + int k]) = length (output_fds g)"
      using l by simp
    show "\<forall>tab<Suc k. tab < length (out[k := next_fd w + int k]) \<longrightarrow>
            out[k := next_fd w + int k] ! tab = next_fd w + int tab"
      using o by (auto simp: less_Suc_eq nth_list_update)
  qed
qed

lemma open_files_result:
  "\<exists>out. open_files file_prefix n g w =
         (g\<lparr>output_fds := out\<rparr>,
          w\<lparr>events := events w @
                 map (\<lambda>tab. Filterbank_create (create_args file_prefix n g tab)
                               (next_fd w + int tab)) [0..<nat n],
            next_fd := next_fd w + int (nat n)\<rparr>) \<and>
         length out = length (output_fds g) \<and>
         (\<forall>tab<nat n. tab < length out \<longrightarrow> out ! tab = next_fd w + int tab)"
  unfolding open_files_def by (rule open_files_upt)

lemma created_files_creates:
  "created_files (map (\<lambda>tab. Filterbank_create (a tab) (fd tab)) ts) =
   map (\<lambda>tab. file_name (a tab)) ts"
  by (induction ts) simp_all

lemma written_creates [simp]:
  "written fd (map (\<lambda>tab. Filterbank_create (a tab) (f tab)) ts) = []"
  by (induction ts) simp_all

lemma closed_creates [simp]:
  "closed (map (\<lambda>tab. Filterbank_create (a tab) (f tab)) ts) = []"
  by (induction ts) simp_all

lemma synced_creates [simp]:
  "synced (map (\<lambda>tab. Filterbank_create (a tab) (f tab)) ts) = []"
  by (induction ts) simp_all

section \<open>Copying a page\<close>

lemma tab_loop_upt:
  assumes "nat (ntimes g) * unat nchannels \<le> 2 ^ 32"
    and "length buffer0 = nat (ntimes g) * unat nchannels"
  shows "length buffer = nat (ntimes g) * unat nchannels \<Longrightarrow>
     \<exists>buffer'. fold (\<lambda>tab (buffer, w).
            let buffer = channel_loop nchannels (padded_size g) (nat (ntimes g)) page tab buffer
            in (buffer, write_fd (output_fds g ! tab) buffer (nat (ntimes g) * unat nchannels) w))
          [0..<k] (buffer, w) =
       (buffer',
        w\<lparr>events := events w @
             map (\<lambda>tab. Write (output_fds g ! tab)
                    (channel_loop nchannels (padded_size g) (nat (ntimes g)) page tab buffer0))
                 [0..<k]\<rparr>) \<and>
       length buffer' = nat (ntimes g) * unat nchannels"
proof (induction k)
  case 0
  then show ?case by simp
next
  case (Suc k)
  let ?n = "nat (ntimes g) * unat nchannels"
  let ?step = "\<lambda>tab (buffer, w).
            let buffer = channel_loop nchannels (padded_size g) (nat (ntimes g)) page tab buffer
            in (buffer, write_fd (output_fds g ! tab) buffer ?n w)"
  from Suc obtain buffer' where
    f: "fold ?step [0..<k] (buffer, w) =
       (buffer',
        w\<lparr>events := events w @
             map (\<lambda>tab. Write (output_fds g ! tab)
                    (channel_loop nchannels (padded_size g) (nat (ntimes g)) page tab buffer0))
                 [0..<k]\<rparr>)"
    and l: "length buffer' = ?n"
    by blast
  have c: "channel_loop nchannels (padded_size g) (nat (ntimes g)) page k buffer' =
           channel_loop nchannels (padded_size g) (nat (ntimes g)) page k buffer0"
    by (rule channel_loop_cong [OF assms(1) l assms(2)]) simp
  have t: "take ?n (channel_loop nchannels (padded_size g) (nat (ntimes g)) page k buffer0) =
           channel_loop nchannels (padded_size g) (nat (ntimes g)) page k buffer0"
    using assms(2) by (simp add: length_channel_loop)
  show ?case
  proof (intro exI [of _ "channel_loop nchannels (padded_size g) (nat (ntimes g)) page k buffer0"]
      conjI)
    show "fold ?step [0..<Suc k] (buffer, w) =
       (channel_loop nchannels (padded_size g) (nat (ntimes g)) page k buffer0,
        w\<lparr>events := events w @
             map (\<lambda>tab. Write (output_fds g ! tab)
                    (channel_loop nchannels (padded_size g) (nat (ntimes g)) page tab buffer0))
                 [0..<Suc k]\<rparr>)"
    proof -
      have "fold ?step [0..<Suc k] (buffer, w) = ?step k (fold ?step [0..<k] (buffer, w))"
        by simp
      also have "\<dots> = ?step k (buffer',
        w\<lparr>events := events w @
             map (\<lambda>tab. Write (output_fds g ! tab)
                    (channel_loop nchannels (padded_size g) (nat (ntimes g)) page tab buffer0))
                 [0..<k]\<rparr>)"
        by (simp only: f)
      also have "\<dots> = (channel_loop nchannels (padded_size g) (nat (ntimes g)) page k buffer0,
        w\<lparr>events := events w @
             map (\<lambda>tab. Write (output_fds g ! tab)
                    (channel_loop nchannels (padded_size g) (nat (ntimes g)) page tab buffer0))
                 [0..<Suc k]\<rparr>)"
        by (simp add: c t write_fd_def emit_def Let_def)
      finally show ?thesis .
    qed
    show "length (channel_loop nchannels (padded_size g) (nat (ntimes g)) page k buffer0) = ?n"
      using assms(2) by (simp add: length_channel_loop)
  qed
qed

lemma tab_loop_result:
  assumes "nat (ntimes g) * unat nchannels \<le> 2 ^ 32"
    and "length buffer0 = nat (ntimes g) * unat nchannels"
    and "length buffer = nat (ntimes g) * unat nchannels"
  shows "\<exists>buffer'. tab_loop g page (buffer, w) =
       (buffer',
        w\<lparr>events := events w @
             map (\<lambda>tab. Write (output_fds g ! tab)
                    (channel_loop nchannels (padded_size g) (nat (ntimes g)) page tab buffer0))
                 [0..<nat (ntabs g)]\<rparr>) \<and>
       length buffer' = nat (ntimes g) * unat nchannels"
  unfolding tab_loop_def by (rule tab_loop_upt [OF assms])

lemma main_loop_result:
  assumes "nat (ntimes g) * unat nchannels \<le> 2 ^ 32"
    and "length buffer0 = nat (ntimes g) * unat nchannels"
  shows "length buffer = nat (ntimes g) * unat nchannels \<Longrightarrow>
     \<exists>buffer'. main_loop g (map Some pages) buffer w page_count =
       ((buffer',
         w\<lparr>events := events w @
             concat (map (\<lambda>page.
                map (\<lambda>tab. Write (output_fds g ! tab)
                    (channel_loop nchannels (padded_size g) (nat (ntimes g)) page tab buffer0))
                  [0..<nat (ntabs g)] @ [Ipcbuf_mark_cleared]) pages)\<rparr>,
         page_count + int (length pages)), [])"
proof (induction pages arbitrary: buffer w page_count)
  case Nil
  then show ?case by simp
next
  case (Cons page pages)
  from tab_loop_result [OF assms Cons.prems, of page w] obtain buffer' where
    t: "tab_loop g page (buffer, w) =
       (buffer',
        w\<lparr>events := events w @
             map (\<lambda>tab. Write (output_fds g ! tab)
                    (channel_loop nchannels (padded_size g) (nat (ntimes g)) page tab buffer0))
                 [0..<nat (ntabs g)]\<rparr>)"
    and l: "length buffer' = nat (ntimes g) * unat nchannels"
    by blast
  let ?w1 = "emit Ipcbuf_mark_cleared (w\<lparr>events := events w @
             map (\<lambda>tab. Write (output_fds g ! tab)
                    (channel_loop nchannels (padded_size g) (nat (ntimes g)) page tab buffer0))
                 [0..<nat (ntabs g)]\<rparr>)"
  from Cons.IH [OF l, of ?w1 "page_count + 1"] obtain buffer'' where
    r: "main_loop g (map Some pages) buffer' ?w1 (page_count + 1) =
       ((buffer'',
         ?w1\<lparr>events := events ?w1 @
             concat (map (\<lambda>page.
                map (\<lambda>tab. Write (output_fds g ! tab)
                    (channel_loop nchannels (padded_size g) (nat (ntimes g)) page tab buffer0))
                  [0..<nat (ntabs g)] @ [Ipcbuf_mark_cleared]) pages)\<rparr>,
         page_count + 1 + int (length pages)), [])"
    by blast
  have "main_loop g (map Some (page # pages)) buffer w page_count =
        main_loop g (map Some pages) buffer' ?w1 (page_count + 1)"
    by (simp add: t)
  also note r
  finally show ?case
    by (intro exI [of _ buffer'']) (simp add: emit_def)
qed

lemma length_malloc [simp]: "length (malloc e n) = n"
  by (simp add: malloc_def)

lemma main_run_trace:
  assumes "0 \<le> ntimes g" and "nat (ntimes g) * unat nchannels < 2 ^ 32"
    and "nat (ntabs g) \<le> length (output_fds g)"
    and "data_block e = map Some pages"
  shows "main_run file_prefix e g w =
     (EXIT_SUCCESS,
      w\<lparr>events := events w @
           map (\<lambda>tab. Filterbank_create (create_args file_prefix (ntabs g) g tab)
                         (next_fd w + int tab)) [0..<nat (ntabs g)] @
           [Signal_sigint] @
           concat (map (\<lambda>page.
              map (\<lambda>tab. Write (next_fd w + int tab)
                     (channel_loop nchannels (padded_size g) (nat (ntimes g)) page tab
                        (malloc e (nat (ntimes g) * unat nchannels))))
                [0..<nat (ntabs g)] @ [Ipcbuf_mark_cleared]) pages) @
           [Log End_of_data, Disconnect, Log (Read_pages (int (length pages)))],
         next_fd := next_fd w + int (nat (ntabs g))\<rparr>)"
proof -
  let ?n = "nat (ntimes g) * unat nchannels"
  let ?creates = "map (\<lambda>tab. Filterbank_create (create_args file_prefix (ntabs g) g tab)
                         (next_fd w + int tab)) [0..<nat (ntabs g)]"
  from open_files_result [of "file_prefix" "ntabs g" "g" "w"] obtain out where
    o: "open_files file_prefix (ntabs g) g w =
         (g\<lparr>output_fds := out\<rparr>,
          w\<lparr>events := events w @ ?creates, next_fd := next_fd w + int (nat (ntabs g))\<rparr>)"
    and l: "length out = length (output_fds g)"
    and n: "\<forall>tab<nat (ntabs g). tab < length out \<longrightarrow> out ! tab = next_fd w + int tab"
    by blast
  let ?g = "g\<lparr>output_fds := out\<rparr>"
  let ?w = "emit Signal_sigint
              (w\<lparr>events := events w @ ?creates, next_fd := next_fd w + int (nat (ntabs g))\<rparr>)"
  have "of_int (ntimes g) * nchannels = (of_nat ?n :: 32 word)"
    using assms(1) by simp
  then have "unat (of_int (ntimes g) * nchannels :: 32 word) = ?n"
    using assms(2) by (intro of_nat_inverse) simp_all
  then have size: "unat (of_int (ntimes ?g) * nchannels :: 32 word) = ?n"
    by simp
  have le: "nat (ntimes ?g) * unat nchannels \<le> 2 ^ 32"
    using assms(2) by simp
  have "length (malloc e ?n) = nat (ntimes ?g) * unat nchannels"
    by simp
  from main_loop_result [OF le this this, of pages ?w 0] obtain buffer' where
    m: "main_loop ?g (map Some pages) (malloc e ?n) ?w 0 =
       ((buffer',
         ?w\<lparr>events := events ?w @
             concat (map (\<lambda>page.
                map (\<lambda>tab. Write (output_fds ?g ! tab)
                    (channel_loop nchannels (padded_size ?g) (nat (ntimes ?g)) page tab
                       (malloc e ?n)))
                  [0..<nat (ntabs ?g)] @ [Ipcbuf_mark_cleared]) pages)\<rparr>,
         0 + int (length pages)), [])"
    by blast
  have fds: "map (\<lambda>tab. Write (out ! tab) (f tab)) [0..<nat (ntabs g)] =
             map (\<lambda>tab. Write (next_fd w + int tab) (f tab)) [0..<nat (ntabs g)]" for f
    using n l assms(3) by simp
  have "main_run file_prefix e g w =
        (EXIT_SUCCESS,
         LOG (Read_pages (0 + int (length pages)))
           (emit Disconnect
              (LOG End_of_data
                 (?w\<lparr>events := events ?w @
                    concat (map (\<lambda>page.
                      map (\<lambda>tab. Write (output_fds ?g ! tab)
                        (channel_loop nchannels (padded_size ?g) (nat (ntimes ?g)) page tab
                          (malloc e ?n)))
                      [0..<nat (ntabs ?g)] @ [Ipcbuf_mark_cleared]) pages)\<rparr>))))"
    unfolding main_run_def o by (simp only: Let_def prod.case size assms(4) m simp_thms if_True)
  then show ?thesis
    by (simp add: fds emit_def LOG_def)
qed

section \<open>Earlier events do not matter\<close>

lemma emit_after: "emit ev (after pre w) = after pre (emit ev w)"
  by (simp add: emit_def after_def)

lemma LOG_after: "LOG m (after pre w) = after pre (LOG m w)"
  by (simp add: LOG_def emit_after)

lemma fold_after:
  assumes "\<And>x s w. step x (s, after pre w) =
             (fst (step x (s, w)), after pre (snd (step x (s, w))))"
  shows "fold step xs (s, after pre w) =
         (fst (fold step xs (s, w)), after pre (snd (fold step xs (s, w))))"
proof (induction xs arbitrary: s w)
  case Nil
  show ?case by simp
next
  case (Cons x xs)
  have "fold step (x # xs) (s, after pre w) = fold step xs (step x (s, after pre w))"
    by simp
  also have "\<dots> = fold step xs (fst (step x (s, w)), after pre (snd (step x (s, w))))"
    by (simp only: assms)
  also have "\<dots> = (fst (fold step xs (step x (s, w))),
                    after pre (snd (fold step xs (step x (s, w)))))"
    by (simp only: Cons.IH prod.collapse)
  finally show ?case by simp
qed

lemma open_files_after:
  "open_files file_prefix n g (after pre w) =
   (fst (open_files file_prefix n g w), after pre (snd (open_files file_prefix n g w)))"
  unfolding open_files_def
  by (rule fold_after) (simp add: filterbank_create_def emit_def after_def)

lemma tab_loop_after:
  "tab_loop g page (buffer, after pre w) =
   (fst (tab_loop g page (buffer, w)), after pre (snd (tab_loop g page (buffer, w))))"
  unfolding tab_loop_def
  by (rule fold_after) (simp add: write_fd_def emit_def after_def Let_def)

lemma main_loop_after:
  "main_loop g answers buffer (after pre w) page_count =
   (case main_loop g answers buffer w page_count of
      ((buffer', w', n), rest) \<Rightarrow> ((buffer', after pre w', n), rest))"
proof (induction g answers buffer w page_count rule: main_loop.induct)
  case (1 g buffer w page_count)
  show ?case by simp
next
  case (2 g rest buffer w page_count)
  show ?case by simp
next
  case (3 g page rest buffer w page_count)
  obtain buffer' w' where t: "tab_loop g page (buffer, w) = (buffer', w')"
    by (cases "tab_loop g page (buffer, w)")
  from 3 [OF refl t [symmetric]] show ?case
    by (simp add: tab_loop_after t emit_after)
qed

lemma main_run_after:
  "main_run file_prefix e g (after pre w) =
   (fst (main_run file_prefix e g w), after pre (snd (main_run file_prefix e g w)))"
proof -
  obtain g' w' where o: "open_files file_prefix (ntabs g) g w = (g', w')"
    by (cases "open_files file_prefix (ntabs g) g w")
  obtain buffer' w'' n rest where
    m: "main_loop g' (data_block e) (malloc e (unat (of_int (ntimes g') * nchannels)))
          (emit Signal_sigint w') 0 = ((buffer', w'', n), rest)"
    by (metis prod.exhaust)
  show ?thesis
    by (simp add: main_run_def open_files_after o emit_after main_loop_after m LOG_after)
qed

lemma main_body_after:
  "main_body file_prefix e g (after pre w) =
   (fst (main_body file_prefix e g w), after pre (snd (main_body file_prefix e g w)))"
  by (simp add: main_body_def main_science_case_def main_science_mode_def exit_with_def
      LOG_after main_run_after)

lemma main_run_env:
  "data_block e' = data_block e \<Longrightarrow> heap e' = heap e \<Longrightarrow>
   main_run file_prefix e' g w = main_run file_prefix e g w"
  by (simp add: main_run_def malloc_def)

lemma main_body_env:
  assumes "data_block e' = data_block e" and "heap e' = heap e"
  shows "main_body file_prefix e' g w = main_body file_prefix e g w"
proof -
  have "main_run file_prefix e' = main_run file_prefix e"
    by (intro ext) (rule main_run_env [OF assms])
  then show ?thesis
    by (simp add: main_body_def split: sum.splits)
qed

section \<open>The whole run\<close>

lemma main_body_resolved:
  assumes "science_case g = 3 \<or> science_case g = 4"
    and "science_mode g = 0 \<or> science_mode g = 2"
  shows "main_body file_prefix e g w =
         main_run file_prefix e
           (g\<lparr>ntimes := if science_case g = 3 then 12500 else 25000,
              tsamp := if science_case g = 3 then 1.024 / 12500 else 1.024 / 25000,
              ntabs := if science_mode g = 0 then 12 else 1\<rparr>)
           (LOG (if science_mode g = 0 then Mode_I_TAB else Mode_I_IAB)
             (LOG (Filename_prefix file_prefix)
               (LOG (Science_case (science_case g)) (LOG Version w))))"
  using assms
  by (auto simp: main_body_def main_science_case_def main_science_mode_def)

lemma main_body_rejected:
  assumes "(science_case g \<noteq> 3 \<and> science_case g \<noteq> 4) \<or>
           (science_mode g \<noteq> 0 \<and> science_mode g \<noteq> 2)"
  shows "fst (main_body file_prefix e g w) = EXIT_FAILURE \<and>
         file_events (events (snd (main_body file_prefix e g w))) = file_events (events w) \<and>
         created_files (events (snd (main_body file_prefix e g w))) = created_files (events w)"
  using assms
  by (auto simp: main_body_def main_science_case_def main_science_mode_def exit_with_def
      LOG_def emit_def file_events_def)

lemma main_early_or_body:
  "(\<not> startup_ok argv e \<and>
    fst (main argv e) =
      (case parseOptions argv \<lparr>events = [], next_fd = first_fd e\<rparr> of
         Inl x \<Rightarrow> EXIT_FAILURE
       | Inr x \<Rightarrow> if logfile_opens e then EXIT_FAILURE else SIGSEGV) \<and>
    file_events (events (snd (main argv e))) = [] \<and>
    created_files (events (snd (main argv e))) = []) \<or>
   (\<exists>key file_prefix logfile h.
      startup_ok argv e \<and> header_block e = Some h \<and>
      parseOptions argv \<lparr>events = [], next_fd = first_fd e\<rparr> =
        Inr ((key, file_prefix, logfile), \<lparr>events = [], next_fd = first_fd e\<rparr>) \<and>
      main argv e =
        main_body file_prefix e (parse_header h initial_globals)
          (after [Log (Logging_to_logfile logfile), Log (Shmkey key), Log (Psrdada_header h)]
             \<lparr>events = [], next_fd = first_fd e\<rparr>))"
proof (cases "parseOptions argv \<lparr>events = [], next_fd = first_fd e\<rparr>")
  case (Inl x)
  obtain c w' where x: "x = (c, w')" by (cases x)
  from parseOptions_Inl [OF Inl [unfolded x]] Inl x show ?thesis
    by (simp add: main_def startup_ok_def file_events_def)
next
  case (Inr y)
  obtain k p l w' where y: "y = ((k, p, l), w')"
    by (cases y) auto
  from parseOptions_Inr [OF Inr [unfolded y]]
  have w': "w' = \<lparr>events = [], next_fd = first_fd e\<rparr>" .
  show ?thesis
  proof (cases "startup_ok argv e")
    case True
    then obtain h where h: "header_block e = Some h"
      by (auto simp: startup_ok_def split: option.splits)
    from True h Inr y w' show ?thesis
      by (simp add: main_def startup_ok_def init_ringbuffer_def LOG_def emit_def after_def)
  next
    case False
    with Inr y w' show ?thesis
      by (auto simp: main_def startup_ok_def init_ringbuffer_def exit_with_def LOG_def emit_def
          file_events_def Let_def split: option.splits)
  qed
qed

lemma fst_main_run: "fst (main_run file_prefix e g w) = EXIT_SUCCESS"
  by (simp add: main_run_def split: prod.splits)

lemma output_fds_parse_header:
  "output_fds (parse_header h initial_globals) = replicate 12 0"
  by (simp add: parse_header_def initial_globals_def MAXTABS_def)

lemma main_trace:
  assumes "startup_ok argv e" and "header_block e = Some h"
    and "g = parse_header h initial_globals"
    and "science_case g = 3 \<or> science_case g = 4"
    and "science_mode g = 0 \<or> science_mode g = 2"
    and "data_block e = map Some pages"
    and "T = (if science_case g = 3 then 12500 else 25000)"
    and "B = (if science_mode g = 0 then 12 else 1)"
  shows "\<exists>k p l a.
     main argv e =
       (EXIT_SUCCESS,
        \<lparr>events =
           [Log (Logging_to_logfile l), Log (Shmkey k), Log (Psrdada_header h),
            Log Version, Log (Science_case (science_case g)), Log (Filename_prefix p),
            Log (if science_mode g = 0 then Mode_I_TAB else Mode_I_IAB)] @
           map (\<lambda>tab. Filterbank_create (a tab) (first_fd e + int tab)) [0..<B] @
           [Signal_sigint] @
           concat (map (\<lambda>page.
              map (\<lambda>tab. Write (first_fd e + int tab)
                     (channel_loop nchannels (padded_size g) T page tab
                        (malloc e (T * unat nchannels))))
                [0..<B] @ [Ipcbuf_mark_cleared]) pages) @
           [Log End_of_data, Disconnect, Log (Read_pages (int (length pages)))],
         next_fd = first_fd e + int B\<rparr>) \<and>
     (\<forall>tab. file_name (a tab) = fname p (int B) tab \<and> ibeam (a tab) = int tab + 1)"
proof -
  let ?w0 = "\<lparr>events = [], next_fd = first_fd e\<rparr>"
  from main_early_or_body [of argv e] assms(1,2) obtain k p l where
    m: "main argv e =
        main_body p e (parse_header h initial_globals)
          (after [Log (Logging_to_logfile l), Log (Shmkey k), Log (Psrdada_header h)] ?w0)"
    by auto
  let ?g = "g\<lparr>ntimes := if science_case g = 3 then 12500 else 25000,
              tsamp := if science_case g = 3 then 1.024 / 12500 else 1.024 / 25000,
              ntabs := if science_mode g = 0 then 12 else 1\<rparr>"
  let ?w = "LOG (if science_mode g = 0 then Mode_I_TAB else Mode_I_IAB)
             (LOG (Filename_prefix p)
               (LOG (Science_case (science_case g)) (LOG Version
                 (after [Log (Logging_to_logfile l), Log (Shmkey k), Log (Psrdada_header h)]
                    ?w0))))"
  have b: "main argv e = main_run p e ?g ?w"
    unfolding m assms(3) [symmetric] by (rule main_body_resolved [OF assms(4,5)])
  have T: "nat (ntimes ?g) = T" and B: "nat (ntabs ?g) = B"
    using assms(7,8) by simp_all
  have r: "main_run p e ?g ?w =
     (EXIT_SUCCESS,
      ?w\<lparr>events := events ?w @
           map (\<lambda>tab. Filterbank_create (create_args p (ntabs ?g) ?g tab)
                         (next_fd ?w + int tab)) [0..<nat (ntabs ?g)] @
           [Signal_sigint] @
           concat (map (\<lambda>page.
              map (\<lambda>tab. Write (next_fd ?w + int tab)
                     (channel_loop nchannels (padded_size ?g) (nat (ntimes ?g)) page tab
                        (malloc e (nat (ntimes ?g) * unat nchannels))))
                [0..<nat (ntabs ?g)] @ [Ipcbuf_mark_cleared]) pages) @
           [Log End_of_data, Disconnect, Log (Read_pages (int (length pages)))],
         next_fd := next_fd ?w + int (nat (ntabs ?g))\<rparr>)"
  proof (rule main_run_trace [OF _ _ _ assms(6)])
    show "0 \<le> ntimes ?g" by simp
    show "nat (ntimes ?g) * unat nchannels < 2 ^ 32" by (simp add: nchannels_def)
    show "nat (ntabs ?g) \<le> length (output_fds ?g)"
      by (simp add: assms(3) output_fds_parse_header)
  qed
  have n: "int B = ntabs ?g"
    using assms(8) by simp
  show ?thesis
  proof (rule exI [of _ k], rule exI [of _ p], rule exI [of _ l],
      rule exI [of _ "\<lambda>tab. create_args p (ntabs ?g) ?g tab"], rule conjI)
    show "main argv e =
       (EXIT_SUCCESS,
        \<lparr>events =
           [Log (Logging_to_logfile l), Log (Shmkey k), Log (Psrdada_header h),
            Log Version, Log (Science_case (science_case g)), Log (Filename_prefix p),
            Log (if science_mode g = 0 then Mode_I_TAB else Mode_I_IAB)] @
           map (\<lambda>tab. Filterbank_create (create_args p (ntabs ?g) ?g tab)
                  (first_fd e + int tab)) [0..<B] @
           [Signal_sigint] @
           concat (map (\<lambda>page.
              map (\<lambda>tab. Write (first_fd e + int tab)
                     (channel_loop nchannels (padded_size g) T page tab
                        (malloc e (T * unat nchannels))))
                [0..<B] @ [Ipcbuf_mark_cleared]) pages) @
           [Log End_of_data, Disconnect, Log (Read_pages (int (length pages)))],
         next_fd = first_fd e + int B\<rparr>)"
      unfolding b r T B by (simp add: LOG_def emit_def after_def)
    show "\<forall>tab. file_name (create_args p (ntabs ?g) ?g tab) = fname p (int B) tab \<and>
                ibeam (create_args p (ntabs ?g) ?g tab) = int tab + 1"
      unfolding n by (simp add: create_args_def)
  qed
qed

lemma written_tabs:
  "written (fd0 + int b) (map (\<lambda>tab. Write (fd0 + int tab) (f tab)) [0..<B]) =
   (if b < B then [f b] else [])"
  by (induction B) auto

lemma written_pages:
  assumes "b < B"
  shows "written (fd0 + int b)
           (concat (map (\<lambda>page. map (\<lambda>tab. Write (fd0 + int tab) (f page tab)) [0..<B] @
                                  [Ipcbuf_mark_cleared]) pages)) =
         map (\<lambda>page. f page b) pages"
  using assms by (induction pages) (simp_all add: written_tabs)

lemma closed_pages [simp]:
  "closed (concat (map (\<lambda>page. map (\<lambda>tab. Write (fd tab) (f page tab)) ts @
                                  [Ipcbuf_mark_cleared]) pages)) = []"
proof -
  have "closed (map (\<lambda>tab. Write (fd tab) (f page tab)) ts) = []" for page
    by (induction ts) simp_all
  then show ?thesis by (induction pages) simp_all
qed

lemma synced_pages [simp]:
  "synced (concat (map (\<lambda>page. map (\<lambda>tab. Write (fd tab) (f page tab)) ts @
                                  [Ipcbuf_mark_cleared]) pages)) = []"
proof -
  have "synced (map (\<lambda>tab. Write (fd tab) (f page tab)) ts) = []" for page
    by (induction ts) simp_all
  then show ?thesis by (induction pages) simp_all
qed

lemma created_pages [simp]:
  "created_files (concat (map (\<lambda>page. map (\<lambda>tab. Write (fd tab) (f page tab)) ts @
                                  [Ipcbuf_mark_cleared]) pages)) = []"
proof -
  have "created_files (map (\<lambda>tab. Write (fd tab) (f page tab)) ts) = []" for page
    by (induction ts) simp_all
  then show ?thesis by (induction pages) simp_all
qed

text \<open>
  \<^bold>\<open>C4\<close>. In a run that gets to the copy loop and receives \<open>N\<close> pages up to the end of
  data, the stream of each beam \<open>b\<close> (the descriptor that \<^verbatim>\<open>filterbank_create\<close> returned
  for beam index \<open>b + 1\<close>) is handed exactly \<open>N\<close> blocks, each of
  \<open>samplesPerPage * channelCount\<close> bytes: the transcoded pages, in the order of their
  arrival, none left out and none repeated. The run ends with success.
\<close>

theorem pages_written_in_order:
  assumes "startup_ok argv e" and "header_block e = Some h"
    and "g = parse_header h initial_globals"
    and "science_case g = 3 \<or> science_case g = 4"
    and "science_mode g = 0 \<or> science_mode g = 2"
    and "data_block e = map Some pages"
    and "T = (if science_case g = 3 then 12500 else 25000)"
    and "b < (if science_mode g = 0 then 12 else 1)"
  shows "fst (main argv e) = EXIT_SUCCESS \<and>
         written (first_fd e + int b) (events (snd (main argv e))) =
           map (\<lambda>page. channel_loop nchannels (padded_size g) T page b
                         (malloc e (T * unat nchannels))) pages \<and>
         length (written (first_fd e + int b) (events (snd (main argv e)))) = length pages \<and>
         list_all (\<lambda>block. length block = T * unat nchannels)
           (written (first_fd e + int b) (events (snd (main argv e)))) \<and>
         (\<exists>a. Filterbank_create a (first_fd e + int b) \<in> set (events (snd (main argv e))) \<and>
              ibeam a = int b + 1)"
proof -
  define B :: nat where "B = (if science_mode g = 0 then 12 else 1)"
  from main_trace [OF assms(1-7) B_def] obtain k p l a where
    m: "main argv e =
       (EXIT_SUCCESS,
        \<lparr>events =
           [Log (Logging_to_logfile l), Log (Shmkey k), Log (Psrdada_header h),
            Log Version, Log (Science_case (science_case g)), Log (Filename_prefix p),
            Log (if science_mode g = 0 then Mode_I_TAB else Mode_I_IAB)] @
           map (\<lambda>tab. Filterbank_create (a tab) (first_fd e + int tab)) [0..<B] @
           [Signal_sigint] @
           concat (map (\<lambda>page.
              map (\<lambda>tab. Write (first_fd e + int tab)
                     (channel_loop nchannels (padded_size g) T page tab
                        (malloc e (T * unat nchannels))))
                [0..<B] @ [Ipcbuf_mark_cleared]) pages) @
           [Log End_of_data, Disconnect, Log (Read_pages (int (length pages)))],
         next_fd = first_fd e + int B\<rparr>)"
    and a: "\<forall>tab. file_name (a tab) = fname p (int B) tab \<and> ibeam (a tab) = int tab + 1"
    by blast
  have b: "b < B" using assms(8) by (simp add: B_def)
  have w: "written (first_fd e + int b) (events (snd (main argv e))) =
           map (\<lambda>page. channel_loop nchannels (padded_size g) T page b
                         (malloc e (T * unat nchannels))) pages"
    unfolding m by (simp add: written_pages [OF b])
  have "Filterbank_create (a b) (first_fd e + int b) \<in> set (events (snd (main argv e)))"
    unfolding m using b by (simp add: image_iff)
  with a have "\<exists>a. Filterbank_create a (first_fd e + int b) \<in> set (events (snd (main argv e))) \<and>
              ibeam a = int b + 1"
    by blast
  moreover have "fst (main argv e) = EXIT_SUCCESS"
    by (simp add: m)
  ultimately show ?thesis
    unfolding w by (simp add: list_all_iff length_channel_loop)
qed

lemma parseOptions_example:
  "parseOptions example_argv w = Inr ((''dada'', ''myobs'', ''log.txt''), w)"
  by (simp add: example_argv_def parseOptions_def parseOptions_loop.simps)

lemma startup_ok_example: "startup_ok example_argv (example_env h answers)"
  by (simp add: startup_ok_def parseOptions_example example_env_def)

text \<open>Two pages for twelve beams at science case 4; the stream of the last beam.\<close>

theorem pages_written_in_order_witness:
  "fst (main example_argv
          (example_env
             (example_header [''SCIENCE_CASE'' \<mapsto> 4, ''SCIENCE_MODE'' \<mapsto> 0,
                              ''PADDED_SIZE'' \<mapsto> 25088])
             [Some (\<lambda>i. of_nat i), Some (\<lambda>i. 0)])) = EXIT_SUCCESS \<and>
   written 14
     (events (snd (main example_argv
          (example_env
             (example_header [''SCIENCE_CASE'' \<mapsto> 4, ''SCIENCE_MODE'' \<mapsto> 0,
                              ''PADDED_SIZE'' \<mapsto> 25088])
             [Some (\<lambda>i. of_nat i), Some (\<lambda>i. 0)])))) =
     [channel_loop nchannels 25088 25000 (\<lambda>i. of_nat i) 11
        (malloc (example_env
             (example_header [''SCIENCE_CASE'' \<mapsto> 4, ''SCIENCE_MODE'' \<mapsto> 0,
                              ''PADDED_SIZE'' \<mapsto> 25088])
             [Some (\<lambda>i. of_nat i), Some (\<lambda>i. 0)]) 38400000),
      channel_loop nchannels 25088 25000 (\<lambda>i. 0) 11
        (malloc (example_env
             (example_header [''SCIENCE_CASE'' \<mapsto> 4, ''SCIENCE_MODE'' \<mapsto> 0,
                              ''PADDED_SIZE'' \<mapsto> 25088])
             [Some (\<lambda>i. of_nat i), Some (\<lambda>i. 0)]) 38400000)]"
proof -
  let ?h = "example_header [''SCIENCE_CASE'' \<mapsto> 4, ''SCIENCE_MODE'' \<mapsto> 0,
                            ''PADDED_SIZE'' \<mapsto> 25088]"
  let ?e = "example_env ?h [Some (\<lambda>i. of_nat i), Some (\<lambda>i. 0)]"
  have g: "science_case (parse_header ?h initial_globals) = 4"
    "science_mode (parse_header ?h initial_globals) = 0"
    "padded_size (parse_header ?h initial_globals) = 25088"
    by (simp_all add: parse_header_def example_header_def ascii_header_get_def)
  have "startup_ok example_argv ?e" by (rule startup_ok_example)
  moreover have "header_block ?e = Some ?h" by (simp add: example_env_def)
  moreover have "data_block ?e = map Some [\<lambda>i. of_nat i, \<lambda>i. 0]" by (simp add: example_env_def)
  moreover have "first_fd ?e = 3" by (simp add: example_env_def)
  ultimately show ?thesis
    using pages_written_in_order [of example_argv ?e ?h "parse_header ?h initial_globals"
        "[\<lambda>i. of_nat i, \<lambda>i. 0]" 25000 11]
    by (simp add: g nchannels_def)
qed

text \<open>
  \<^bold>\<open>C2\<close>. Science case 3 sets \<^verbatim>\<open>ntimes\<close> to 12500 and \<^verbatim>\<open>tsamp\<close> to \<open>1.024 / 12500\<close>,
  science case 4 sets them to 25000 and \<open>1.024 / 25000\<close>; science mode 0 sets \<^verbatim>\<open>ntabs\<close>
  to 12 and science mode 2 sets it to 1; any other science case and any other science mode
  end the program with \<^verbatim>\<open>EXIT_FAILURE\<close>. For a run of \<^verbatim>\<open>main\<close>: when the header gives a
  pair in \<open>{3, 4} \<times> {0, 2}\<close>, \<^verbatim>\<open>main\<close> goes on to open the files and copy the pages with
  exactly these values; when the header gives any other pair and the log file could be
  opened, \<^verbatim>\<open>main\<close> exits with \<^verbatim>\<open>EXIT_FAILURE\<close>.
\<close>

theorem parameter_resolution:
  "(science_case g = 3 \<longrightarrow>
      (\<exists>g'. main_science_case g w = Inr (g', w) \<and> ntimes g' = 12500 \<and>
            tsamp g' = 1.024 / 12500)) \<and>
   (science_case g = 4 \<longrightarrow>
      (\<exists>g'. main_science_case g w = Inr (g', w) \<and> ntimes g' = 25000 \<and>
            tsamp g' = 1.024 / 25000)) \<and>
   (science_mode g = 0 \<longrightarrow> (\<exists>g' w'. main_science_mode g w = Inr (g', w') \<and> ntabs g' = 12)) \<and>
   (science_mode g = 2 \<longrightarrow> (\<exists>g' w'. main_science_mode g w = Inr (g', w') \<and> ntabs g' = 1)) \<and>
   (science_case g \<noteq> 3 \<and> science_case g \<noteq> 4 \<longrightarrow>
      (\<exists>w'. main_science_case g w = Inl (EXIT_FAILURE, w'))) \<and>
   (science_mode g \<noteq> 0 \<and> science_mode g \<noteq> 2 \<longrightarrow>
      (\<exists>w'. main_science_mode g w = Inl (EXIT_FAILURE, w'))) \<and>
   (startup_ok argv e \<and> header_block e = Some h \<and> g = parse_header h initial_globals \<and>
    (science_case g = 3 \<or> science_case g = 4) \<and>
    (science_mode g = 0 \<or> science_mode g = 2) \<longrightarrow>
      (\<exists>p w' g'. main argv e = main_run p e g' w' \<and>
         ntimes g' = (if science_case g = 3 then 12500 else 25000) \<and>
         tsamp g' = (if science_case g = 3 then 1.024 / 12500 else 1.024 / 25000) \<and>
         ntabs g' = (if science_mode g = 0 then 12 else 1) \<and>
         padded_size g' = padded_size g)) \<and>
   (logfile_opens e \<and> header_block e = Some h \<and> g = parse_header h initial_globals \<and>
    ((science_case g \<noteq> 3 \<and> science_case g \<noteq> 4) \<or>
     (science_mode g \<noteq> 0 \<and> science_mode g \<noteq> 2)) \<longrightarrow>
      fst (main argv e) = EXIT_FAILURE)"
proof -
  have reach: "\<exists>k p l. main argv e = main_body p e g
          (after [Log (Logging_to_logfile l), Log (Shmkey k), Log (Psrdada_header h)]
             \<lparr>events = [], next_fd = first_fd e\<rparr>)"
    if "startup_ok argv e" "header_block e = Some h" "g = parse_header h initial_globals"
    using main_early_or_body [of argv e] that by auto
  have valid: "\<exists>p w' g'. main argv e = main_run p e g' w' \<and>
         ntimes g' = (if science_case g = 3 then 12500 else 25000) \<and>
         tsamp g' = (if science_case g = 3 then 1.024 / 12500 else 1.024 / 25000) \<and>
         ntabs g' = (if science_mode g = 0 then 12 else 1) \<and>
         padded_size g' = padded_size g"
    if a: "startup_ok argv e \<and> header_block e = Some h \<and> g = parse_header h initial_globals \<and>
       (science_case g = 3 \<or> science_case g = 4) \<and>
       (science_mode g = 0 \<or> science_mode g = 2)"
  proof -
    from a reach obtain k p l where
      m: "main argv e = main_body p e g
          (after [Log (Logging_to_logfile l), Log (Shmkey k), Log (Psrdada_header h)]
             \<lparr>events = [], next_fd = first_fd e\<rparr>)"
      by blast
    from a have c: "science_case g = 3 \<or> science_case g = 4"
      and d: "science_mode g = 0 \<or> science_mode g = 2"
      by blast+
    let ?g = "g\<lparr>ntimes := if science_case g = 3 then 12500 else 25000,
              tsamp := if science_case g = 3 then 1.024 / 12500 else 1.024 / 25000,
              ntabs := if science_mode g = 0 then 12 else 1\<rparr>"
    have "main argv e = main_run p e ?g
           (LOG (if science_mode g = 0 then Mode_I_TAB else Mode_I_IAB)
             (LOG (Filename_prefix p)
               (LOG (Science_case (science_case g)) (LOG Version
                 (after [Log (Logging_to_logfile l), Log (Shmkey k), Log (Psrdada_header h)]
                    \<lparr>events = [], next_fd = first_fd e\<rparr>)))))"
      unfolding m by (rule main_body_resolved [OF c d])
    moreover have "ntimes ?g = (if science_case g = 3 then 12500 else 25000)"
      "tsamp ?g = (if science_case g = 3 then 1.024 / 12500 else 1.024 / 25000)"
      "ntabs ?g = (if science_mode g = 0 then 12 else 1)"
      "padded_size ?g = padded_size g"
      by simp_all
    ultimately show ?thesis by blast
  qed
  have invalid: "fst (main argv e) = EXIT_FAILURE"
    if a: "logfile_opens e \<and> header_block e = Some h \<and> g = parse_header h initial_globals \<and>
      ((science_case g \<noteq> 3 \<and> science_case g \<noteq> 4) \<or>
       (science_mode g \<noteq> 0 \<and> science_mode g \<noteq> 2))"
  proof (cases "startup_ok argv e")
    case False
    with main_early_or_body [of argv e] a show ?thesis
      by (auto split: sum.splits)
  next
    case True
    with a reach obtain k p l where
      m: "main argv e = main_body p e g
          (after [Log (Logging_to_logfile l), Log (Shmkey k), Log (Psrdada_header h)]
             \<lparr>events = [], next_fd = first_fd e\<rparr>)"
      by blast
    from a have "(science_case g \<noteq> 3 \<and> science_case g \<noteq> 4) \<or>
                 (science_mode g \<noteq> 0 \<and> science_mode g \<noteq> 2)"
      by blast
    from main_body_rejected [OF this] show ?thesis
      unfolding m by simp
  qed
  have stages:
    "science_case g = 3 \<longrightarrow>
      (\<exists>g'. main_science_case g w = Inr (g', w) \<and> ntimes g' = 12500 \<and>
            tsamp g' = 1.024 / 12500)"
    "science_case g = 4 \<longrightarrow>
      (\<exists>g'. main_science_case g w = Inr (g', w) \<and> ntimes g' = 25000 \<and>
            tsamp g' = 1.024 / 25000)"
    "science_mode g = 0 \<longrightarrow> (\<exists>g' w'. main_science_mode g w = Inr (g', w') \<and> ntabs g' = 12)"
    "science_mode g = 2 \<longrightarrow> (\<exists>g' w'. main_science_mode g w = Inr (g', w') \<and> ntabs g' = 1)"
    "science_case g \<noteq> 3 \<and> science_case g \<noteq> 4 \<longrightarrow>
      (\<exists>w'. main_science_case g w = Inl (EXIT_FAILURE, w'))"
    "science_mode g \<noteq> 0 \<and> science_mode g \<noteq> 2 \<longrightarrow>
      (\<exists>w'. main_science_mode g w = Inl (EXIT_FAILURE, w'))"
    by (simp_all add: main_science_case_def main_science_mode_def exit_with_def)
  from stages valid invalid show ?thesis by blast
qed

text \<open>
  The default pair \<open>(3, 2)\<close>, the pair \<open>(4, 0)\<close> and the pair \<open>(5, 7)\<close> at the two tests; a
  run of \<^verbatim>\<open>main\<close> with the pair \<open>(4, 0)\<close> and one with the pair \<open>(3, 7)\<close>.
\<close>

theorem parameter_resolution_witness:
  "(\<exists>g'. main_science_case initial_globals \<lparr>events = [], next_fd = 3\<rparr> =
            Inr (g', \<lparr>events = [], next_fd = 3\<rparr>) \<and>
         ntimes g' = 12500 \<and> tsamp g' = 1.024 / 12500) \<and>
   (\<exists>g' w'. main_science_mode initial_globals \<lparr>events = [], next_fd = 3\<rparr> = Inr (g', w') \<and>
         ntabs g' = 1) \<and>
   (\<exists>g'. main_science_case (initial_globals\<lparr>science_case := 4, science_mode := 0\<rparr>)
            \<lparr>events = [], next_fd = 3\<rparr> = Inr (g', \<lparr>events = [], next_fd = 3\<rparr>) \<and>
         ntimes g' = 25000 \<and> tsamp g' = 1.024 / 25000) \<and>
   (\<exists>g' w'. main_science_mode (initial_globals\<lparr>science_case := 4, science_mode := 0\<rparr>)
            \<lparr>events = [], next_fd = 3\<rparr> = Inr (g', w') \<and> ntabs g' = 12) \<and>
   (\<exists>w'. main_science_case (initial_globals\<lparr>science_case := 5, science_mode := 7\<rparr>)
            \<lparr>events = [], next_fd = 3\<rparr> = Inl (EXIT_FAILURE, w')) \<and>
   (\<exists>w'. main_science_mode (initial_globals\<lparr>science_case := 5, science_mode := 7\<rparr>)
            \<lparr>events = [], next_fd = 3\<rparr> = Inl (EXIT_FAILURE, w')) \<and>
   (\<exists>p w' g'.
      main example_argv
        (example_env (example_header [''SCIENCE_CASE'' \<mapsto> 4, ''SCIENCE_MODE'' \<mapsto> 0]) []) =
      main_run p
        (example_env (example_header [''SCIENCE_CASE'' \<mapsto> 4, ''SCIENCE_MODE'' \<mapsto> 0]) [])
        g' w' \<and>
      ntimes g' = 25000 \<and> tsamp g' = 1.024 / 25000 \<and> ntabs g' = 12 \<and>
      padded_size g' = 12500) \<and>
   fst (main example_argv
          (example_env (example_header [''SCIENCE_CASE'' \<mapsto> 3, ''SCIENCE_MODE'' \<mapsto> 7]) [])) =
     EXIT_FAILURE"
proof -
  let ?w = "\<lparr>events = [], next_fd = 3\<rparr>"
  let ?h = "example_header [''SCIENCE_CASE'' \<mapsto> 3, ''SCIENCE_MODE'' \<mapsto> 7]"
  let ?h' = "example_header [''SCIENCE_CASE'' \<mapsto> 4, ''SCIENCE_MODE'' \<mapsto> 0]"
  have g: "science_case (parse_header ?h initial_globals) = 3"
    "science_mode (parse_header ?h initial_globals) = 7"
    by (simp_all add: parse_header_def example_header_def ascii_header_get_def)
  have g': "science_case (parse_header ?h' initial_globals) = 4"
    "science_mode (parse_header ?h' initial_globals) = 0"
    "padded_size (parse_header ?h' initial_globals) = 12500"
    by (simp_all add: parse_header_def example_header_def ascii_header_get_def
        initial_globals_def)
  have i: "science_case initial_globals = 3" "science_mode initial_globals = 2"
    by (simp_all add: initial_globals_def)
  have e: "header_block (example_env ?h []) = Some ?h" "logfile_opens (example_env ?h [])"
    "header_block (example_env ?h' []) = Some ?h'"
    by (simp_all add: example_env_def)
  from parameter_resolution [of initial_globals ?w example_argv "example_env ?h []" ?h]
    parameter_resolution [of "initial_globals\<lparr>science_case := 4, science_mode := 0\<rparr>" ?w
      example_argv "example_env ?h []" ?h]
    parameter_resolution [of "initial_globals\<lparr>science_case := 5, science_mode := 7\<rparr>" ?w
      example_argv "example_env ?h []" ?h]
    parameter_resolution [of "parse_header ?h initial_globals" ?w
      example_argv "example_env ?h []" ?h]
    parameter_resolution [of "parse_header ?h' initial_globals" ?w
      example_argv "example_env ?h' []" ?h']
    startup_ok_example [of ?h' "[]"]
  show ?thesis
    by (simp add: g g' i e)
qed

text \<open>
  \<^bold>\<open>C7\<close>. The claim is that \<^verbatim>\<open>-h\<close> prints the usage message and exits with success.
  The code does not: \<open>h\<close> is missing from the option string \<^verbatim>\<open>"b:c:m:k:l:n:"\<close>, so
  \<^verbatim>\<open>getopt\<close> answers \<open>?\<close>, the \<^verbatim>\<open>case('h')\<close> of the switch is never taken, and the
  default case reports an unknown option and exits with failure.
\<close>

theorem help_flag_exits_with_failure:
  "main (prog # ''-h'' # rest) e =
     (EXIT_FAILURE, \<lparr>events = [Stderr (Unknown_option CHR ''?'')], next_fd = first_fd e\<rparr>)"
  by (simp add: main_def parseOptions_def parseOptions_loop.simps exit_with_def emit_def)

lemma created_files_open_files:
  "created_files (events (snd (open_files file_prefix n g w))) =
   created_files (events w) @ map (fname file_prefix n) [0..<nat n]"
proof -
  from open_files_result [of "file_prefix" n g w] obtain out where
    "open_files file_prefix n g w =
         (g\<lparr>output_fds := out\<rparr>,
          w\<lparr>events := events w @
                 map (\<lambda>tab. Filterbank_create (create_args file_prefix n g tab)
                               (next_fd w + int tab)) [0..<nat n],
            next_fd := next_fd w + int (nat n)\<rparr>)"
    by blast
  then show ?thesis
    by (simp add: created_files_creates create_args_def)
qed

lemma format_02i_values:
  "map (\<lambda>tab. format_02i (int tab + 1)) [0..<12] =
   [''01'', ''02'', ''03'', ''04'', ''05'', ''06'', ''07'', ''08'', ''09'', ''10'', ''11'', ''12'']"
  by (simp add: format_02i_def zero_pad_def decimal.simps upt_rec)

text \<open>
  \<^bold>\<open>C6\<close>, amended. With one beam and a prefix of at most 251 characters exactly one
  file is created, named \<open>prefix.fil\<close>; with twelve beams and a prefix of at most 248
  characters exactly twelve are created, named \<open>prefix_01.fil\<close> to \<open>prefix_12.fil\<close>. (The
  name is built in a buffer of 256 characters; a longer name is cut off after 255.)
\<close>

theorem output_file_names:
  "(length file_prefix \<le> 251 \<longrightarrow>
      created_files (events (snd (open_files file_prefix 1 g w))) =
      created_files (events w) @ [file_prefix @ ''.fil'']) \<and>
   (length file_prefix \<le> 248 \<longrightarrow>
      created_files (events (snd (open_files file_prefix 12 g w))) =
      created_files (events w) @
        [file_prefix @ ''_01.fil'', file_prefix @ ''_02.fil'', file_prefix @ ''_03.fil'',
         file_prefix @ ''_04.fil'', file_prefix @ ''_05.fil'', file_prefix @ ''_06.fil'',
         file_prefix @ ''_07.fil'', file_prefix @ ''_08.fil'', file_prefix @ ''_09.fil'',
         file_prefix @ ''_10.fil'', file_prefix @ ''_11.fil'', file_prefix @ ''_12.fil''])"
proof (intro conjI impI)
  assume "length file_prefix \<le> 251"
  then show "created_files (events (snd (open_files file_prefix 1 g w))) =
      created_files (events w) @ [file_prefix @ ''.fil'']"
    by (simp add: created_files_open_files fname_def snprintf_def)
next
  assume l: "length file_prefix \<le> 248"
  have "map (fname file_prefix 12) [0..<12] =
        map (\<lambda>s. file_prefix @ ''_'' @ s @ ''.fil'') (map (\<lambda>tab. format_02i (int tab + 1)) [0..<12])"
  proof -
    have "fname file_prefix 12 tab = file_prefix @ ''_'' @ format_02i (int tab + 1) @ ''.fil''"
      if "tab \<in> set [0..<12]" for tab
    proof -
      have "\<forall>tab \<in> set [0..<12]. length (format_02i (int tab + 1)) = 2"
        by (simp add: format_02i_def zero_pad_def decimal.simps upt_rec)
      with that have "length (format_02i (int tab + 1)) = 2"
        by blast
      with l show ?thesis
        by (simp add: fname_def snprintf_def)
    qed
    then show ?thesis
      unfolding map_map by (intro map_cong) simp_all
  qed
  then show "created_files (events (snd (open_files file_prefix 12 g w))) =
      created_files (events w) @
        [file_prefix @ ''_01.fil'', file_prefix @ ''_02.fil'', file_prefix @ ''_03.fil'',
         file_prefix @ ''_04.fil'', file_prefix @ ''_05.fil'', file_prefix @ ''_06.fil'',
         file_prefix @ ''_07.fil'', file_prefix @ ''_08.fil'', file_prefix @ ''_09.fil'',
         file_prefix @ ''_10.fil'', file_prefix @ ''_11.fil'', file_prefix @ ''_12.fil'']"
    by (simp add: created_files_open_files format_02i_values)
qed

theorem output_file_names_witness:
  "created_files (events (snd (open_files ''myobs'' 1 initial_globals
      \<lparr>events = [], next_fd = 3\<rparr>))) = [''myobs.fil''] \<and>
   created_files (events (snd (open_files ''myobs'' 12 initial_globals
      \<lparr>events = [], next_fd = 3\<rparr>))) =
     [''myobs_01.fil'', ''myobs_02.fil'', ''myobs_03.fil'', ''myobs_04.fil'',
      ''myobs_05.fil'', ''myobs_06.fil'', ''myobs_07.fil'', ''myobs_08.fil'',
      ''myobs_09.fil'', ''myobs_10.fil'', ''myobs_11.fil'', ''myobs_12.fil'']"
  using output_file_names [of "''myobs''" initial_globals "\<lparr>events = [], next_fd = 3\<rparr>"]
  by simp

text \<open>A prefix of 252 characters: the name that is created ends in \<open>.fi\<close>.\<close>

theorem output_file_names_counterexample:
  "created_files (events (snd (open_files (replicate 252 CHR ''a'') 1 initial_globals
      \<lparr>events = [], next_fd = 3\<rparr>))) \<noteq> [replicate 252 CHR ''a'' @ ''.fil'']"
  by (simp add: created_files_open_files fname_def snprintf_def)

lemma sigint_handler_closes_each:
  assumes "\<forall>i<nat (ntabs g). output_fds g ! i \<noteq> 0"
  shows "sigint_handler g w =
         (EXIT_FAILURE,
          w\<lparr>events := events w @ [Log Sigint_received] @
             concat (map (\<lambda>i. [Fsync (output_fds g ! i), Filterbank_close (output_fds g ! i)])
                       [0..<nat (ntabs g)])\<rparr>)"
proof -
  have "\<forall>i<n. output_fds g ! i \<noteq> 0 \<Longrightarrow>
        fold (\<lambda>i w. if output_fds g ! i \<noteq> 0
                     then filterbank_close (output_fds g ! i) (fsync (output_fds g ! i) w)
                     else w) [0..<n] w' =
        w'\<lparr>events := events w' @
             concat (map (\<lambda>i. [Fsync (output_fds g ! i), Filterbank_close (output_fds g ! i)])
                       [0..<n])\<rparr>" for n w'
    by (induction n) (simp_all add: filterbank_close_def fsync_def emit_def)
  from this [OF assms] show ?thesis
    by (simp add: sigint_handler_def LOG_def emit_def)
qed

lemma normal_completion_closes_nothing:
  assumes "startup_ok argv e" and "header_block e = Some h"
    and "g = parse_header h initial_globals"
    and "science_case g = 3 \<or> science_case g = 4"
    and "science_mode g = 0 \<or> science_mode g = 2"
    and "data_block e = map Some pages"
  shows "fst (main argv e) = EXIT_SUCCESS \<and>
         length (created_files (events (snd (main argv e)))) =
           (if science_mode g = 0 then 12 else 1) \<and>
         closed (events (snd (main argv e))) = [] \<and>
         synced (events (snd (main argv e))) = []"
proof -
  from main_trace [OF assms refl refl] obtain k p l a where
    m: "main argv e =
       (EXIT_SUCCESS,
        \<lparr>events =
           [Log (Logging_to_logfile l), Log (Shmkey k), Log (Psrdada_header h),
            Log Version, Log (Science_case (science_case g)), Log (Filename_prefix p),
            Log (if science_mode g = 0 then Mode_I_TAB else Mode_I_IAB)] @
           map (\<lambda>tab. Filterbank_create (a tab) (first_fd e + int tab))
             [0..<if science_mode g = 0 then 12 else 1] @
           [Signal_sigint] @
           concat (map (\<lambda>page.
              map (\<lambda>tab. Write (first_fd e + int tab)
                     (channel_loop nchannels (padded_size g)
                        (if science_case g = 3 then 12500 else 25000) page tab
                        (malloc e ((if science_case g = 3 then 12500 else 25000) *
                                   unat nchannels))))
                [0..<if science_mode g = 0 then 12 else 1] @ [Ipcbuf_mark_cleared]) pages) @
           [Log End_of_data, Disconnect, Log (Read_pages (int (length pages)))],
         next_fd = first_fd e + int (if science_mode g = 0 then 12 else 1)\<rparr>)"
    by blast
  show ?thesis
    unfolding m by (simp add: created_files_creates del: upt_rec_numeral)
qed

text \<open>
  \<^bold>\<open>C3\<close>. The claim is that every opened stream is synchronised and closed exactly once,
  at the end of data as well as on an interrupt. The code does so on the interrupt path
  only: \<^verbatim>\<open>close_files\<close> is defined but never called, and \<^verbatim>\<open>main\<close> returns at the end
  of data without a single \<^verbatim>\<open>fsync\<close> or \<^verbatim>\<open>filterbank_close\<close>. Here is a run with the
  default parameters and one page.
\<close>

theorem streams_left_open_at_end_of_data:
  "fst (main example_argv (example_env (example_header Map.empty) [Some (\<lambda>i. 0)])) =
     EXIT_SUCCESS \<and>
   length (created_files (events (snd
     (main example_argv (example_env (example_header Map.empty) [Some (\<lambda>i. 0)]))))) = 1 \<and>
   closed (events (snd
     (main example_argv (example_env (example_header Map.empty) [Some (\<lambda>i. 0)])))) = [] \<and>
   synced (events (snd
     (main example_argv (example_env (example_header Map.empty) [Some (\<lambda>i. 0)])))) = []"
proof -
  let ?h = "example_header Map.empty"
  let ?e = "example_env ?h [Some (\<lambda>i. 0)]"
  have g: "science_case (parse_header ?h initial_globals) = 3"
    "science_mode (parse_header ?h initial_globals) = 2"
    by (simp_all add: parse_header_def example_header_def ascii_header_get_def
        initial_globals_def)
  have "header_block ?e = Some ?h" and "data_block ?e = map Some [\<lambda>i. 0]"
    by (simp_all add: example_env_def)
  from normal_completion_closes_nothing [OF startup_ok_example this(1) refl _ _ this(2)]
  show ?thesis
    by (simp add: g)
qed

lemma main_example:
  "main example_argv (example_env h answers) =
   main_body ''myobs'' (example_env h answers) (parse_header h initial_globals)
     \<lparr>events = [Log (Logging_to_logfile ''log.txt''), Log (Shmkey ''dada''),
                Log (Psrdada_header h)],
      next_fd = 3\<rparr>"
  by (simp add: main_def parseOptions_example example_env_def init_ringbuffer_def
      LOG_def emit_def)

text \<open>
  \<^bold>\<open>C8\<close>, amended. When the header block carries science mode 1, no output file is ever
  created, and a run whose log file could be opened exits with failure. The science case is
  tested first: in a run that gets to it, the last message is the one about unsupported
  modes when the science case is 3 or 4, and the one about an illegal science case
  otherwise.
\<close>

theorem polarization_mode_rejected:
  assumes "header_block e = Some h" and "hdr_i h ''SCIENCE_MODE'' = Some 1"
  shows "created_files (events (snd (main argv e))) = [] \<and>
         (logfile_opens e \<longrightarrow> fst (main argv e) = EXIT_FAILURE) \<and>
         (startup_ok argv e \<and>
          (science_case (parse_header h initial_globals) = 3 \<or>
           science_case (parse_header h initial_globals) = 4) \<longrightarrow>
            last (events (snd (main argv e))) = Log Modes_not_supported) \<and>
         (startup_ok argv e \<and>
          science_case (parse_header h initial_globals) \<noteq> 3 \<and>
          science_case (parse_header h initial_globals) \<noteq> 4 \<longrightarrow>
            (\<exists>v. last (events (snd (main argv e))) = Log (Illegal_science_case v)))"
proof -
  let ?g = "parse_header h initial_globals"
  have mode: "science_mode ?g = 1"
    using assms(2) by (simp add: parse_header_def ascii_header_get_def)
  then have rej: "(science_case ?g \<noteq> 3 \<and> science_case ?g \<noteq> 4) \<or>
                  (science_mode ?g \<noteq> 0 \<and> science_mode ?g \<noteq> 2)"
    by simp
  show ?thesis
  proof (cases "startup_ok argv e")
    case False
    with main_early_or_body [of argv e] show ?thesis
      by (auto split: sum.splits)
  next
    case True
    with main_early_or_body [of argv e] assms(1) obtain k p l where
      m: "main argv e = main_body p e ?g
          (after [Log (Logging_to_logfile l), Log (Shmkey k), Log (Psrdada_header h)]
             \<lparr>events = [], next_fd = first_fd e\<rparr>)"
      by auto
    have "fst (main argv e) = EXIT_FAILURE \<and> created_files (events (snd (main argv e))) = []"
      unfolding m using main_body_rejected [OF rej, of p e] by simp
    moreover have "last (events (snd (main argv e))) = Log Modes_not_supported"
      if "science_case ?g = 3 \<or> science_case ?g = 4"
      unfolding m using that mode
      by (auto simp: main_body_def main_science_case_def main_science_mode_def exit_with_def
          LOG_def emit_def)
    moreover have "\<exists>v. last (events (snd (main argv e))) = Log (Illegal_science_case v)"
      if "science_case ?g \<noteq> 3 \<and> science_case ?g \<noteq> 4"
      unfolding m using that
      by (simp add: main_body_def main_science_case_def exit_with_def LOG_def emit_def)
    ultimately show ?thesis by blast
  qed
qed

theorem polarization_mode_rejected_witness:
  "created_files (events (snd (main example_argv
          (example_env (example_header [''SCIENCE_CASE'' \<mapsto> 4, ''SCIENCE_MODE'' \<mapsto> 1])
             [Some (\<lambda>i. 0)])))) = [] \<and>
   fst (main example_argv
          (example_env (example_header [''SCIENCE_CASE'' \<mapsto> 4, ''SCIENCE_MODE'' \<mapsto> 1])
             [Some (\<lambda>i. 0)])) = EXIT_FAILURE \<and>
   last (events (snd (main example_argv
          (example_env (example_header [''SCIENCE_CASE'' \<mapsto> 4, ''SCIENCE_MODE'' \<mapsto> 1])
             [Some (\<lambda>i. 0)])))) = Log Modes_not_supported"
proof -
  let ?h = "example_header [''SCIENCE_CASE'' \<mapsto> 4, ''SCIENCE_MODE'' \<mapsto> 1]"
  let ?e = "example_env ?h [Some (\<lambda>i. 0)]"
  have "header_block ?e = Some ?h" and "logfile_opens ?e"
    by (simp_all add: example_env_def)
  moreover have "hdr_i ?h ''SCIENCE_MODE'' = Some 1" by (simp add: example_header_def)
  moreover have "science_case (parse_header ?h initial_globals) = 4"
    by (simp add: parse_header_def example_header_def ascii_header_get_def)
  ultimately show ?thesis
    using polarization_mode_rejected [of ?e ?h example_argv] startup_ok_example [of ?h]
    by simp
qed

text \<open>With science case 5 the message about unsupported modes is never printed.\<close>

theorem polarization_mode_rejected_counterexample:
  "Log Modes_not_supported \<notin> set (events (snd (main example_argv
     (example_env (example_header [''SCIENCE_CASE'' \<mapsto> 5, ''SCIENCE_MODE'' \<mapsto> 1]) []))))"
  by (simp add: main_example main_body_def main_science_case_def exit_with_def LOG_def emit_def
      parse_header_def example_header_def ascii_header_get_def initial_globals_def)

text \<open>
  \<^bold>\<open>C9\<close>. A header block without \<^verbatim>\<open>SCIENCE_CASE\<close>, \<^verbatim>\<open>SCIENCE_MODE\<close> or
  \<^verbatim>\<open>PADDED_SIZE\<close> leaves the initial value 3, 2 or 12500 in place; the run ends as, and
  makes the same calls on the output files as, the run whose header supplies these values for
  the missing fields; and with science case and mode both missing a run that gets to the
  science case ends with success.
\<close>

theorem missing_fields_take_defaults:
  assumes "header_block e = Some h"
    and "h' = h\<lparr>hdr_i := [''SCIENCE_CASE'' \<mapsto> 3, ''SCIENCE_MODE'' \<mapsto> 2,
                            ''PADDED_SIZE'' \<mapsto> 12500] ++ hdr_i h\<rparr>"
  shows "(hdr_i h ''SCIENCE_CASE'' = None \<longrightarrow> science_case (parse_header h initial_globals) = 3) \<and>
         (hdr_i h ''SCIENCE_MODE'' = None \<longrightarrow> science_mode (parse_header h initial_globals) = 2) \<and>
         (hdr_i h ''PADDED_SIZE'' = None \<longrightarrow>
            padded_size (parse_header h initial_globals) = 12500) \<and>
         parse_header h' initial_globals = parse_header h initial_globals \<and>
         fst (main argv (e\<lparr>header_block := Some h'\<rparr>)) = fst (main argv e) \<and>
         file_events (events (snd (main argv (e\<lparr>header_block := Some h'\<rparr>)))) =
           file_events (events (snd (main argv e))) \<and>
         (startup_ok argv e \<and> hdr_i h ''SCIENCE_CASE'' = None \<and>
          hdr_i h ''SCIENCE_MODE'' = None \<longrightarrow> fst (main argv e) = EXIT_SUCCESS)"
proof -
  let ?e' = "e\<lparr>header_block := Some h'\<rparr>"
  let ?g = "parse_header h initial_globals"
  let ?w0 = "\<lparr>events = [], next_fd = first_fd e\<rparr>"
  have d: "hdr_i h ''SCIENCE_CASE'' = None \<longrightarrow> science_case ?g = 3"
    "hdr_i h ''SCIENCE_MODE'' = None \<longrightarrow> science_mode ?g = 2"
    "hdr_i h ''PADDED_SIZE'' = None \<longrightarrow> padded_size ?g = 12500"
    by (simp_all add: parse_header_def ascii_header_get_def initial_globals_def)
  have g: "parse_header h' initial_globals = ?g"
    unfolding assms(2)
    by (simp add: parse_header_def ascii_header_get_def initial_globals_def map_add_def
        split: option.splits)
  have s: "startup_ok argv ?e' = startup_ok argv e"
    using assms(1) by (simp add: startup_ok_def)
  have same: "fst (main argv ?e') = fst (main argv e) \<and>
        file_events (events (snd (main argv ?e'))) = file_events (events (snd (main argv e)))"
  proof (cases "startup_ok argv e")
    case False
    with main_early_or_body [of argv e] main_early_or_body [of argv ?e'] s show ?thesis
      by auto
  next
    case True
    with main_early_or_body [of argv e] assms(1) obtain k p l where
      p: "parseOptions argv ?w0 = Inr ((k, p, l), ?w0)" and
      m: "main argv e = main_body p e ?g
          (after [Log (Logging_to_logfile l), Log (Shmkey k), Log (Psrdada_header h)] ?w0)"
      by auto
    from True s main_early_or_body [of argv ?e'] obtain k' p' l' where
      p': "parseOptions argv ?w0 = Inr ((k', p', l'), ?w0)" and
      m': "main argv ?e' = main_body p' ?e' (parse_header h' initial_globals)
          (after [Log (Logging_to_logfile l'), Log (Shmkey k'), Log (Psrdada_header h')] ?w0)"
      by auto
    from p p' have kpl: "k' = k" "p' = p" "l' = l" by simp_all
    have env: "main_body p ?e' ?g w = main_body p e ?g w" for w
      by (rule main_body_env) simp_all
    show ?thesis
      unfolding m m' kpl g env main_body_after
      by (simp add: file_events_def)
  qed
  have "fst (main argv e) = EXIT_SUCCESS"
    if "startup_ok argv e" "hdr_i h ''SCIENCE_CASE'' = None" "hdr_i h ''SCIENCE_MODE'' = None"
  proof -
    from that(1) main_early_or_body [of argv e] assms(1) obtain k p l where
      m: "main argv e = main_body p e ?g
          (after [Log (Logging_to_logfile l), Log (Shmkey k), Log (Psrdada_header h)] ?w0)"
      by auto
    from that d have "science_case ?g = 3 \<or> science_case ?g = 4"
      "science_mode ?g = 0 \<or> science_mode ?g = 2"
      by simp_all
    from main_body_resolved [OF this] show ?thesis
      unfolding m by (simp add: fst_main_run)
  qed
  with d g same show ?thesis by blast
qed

theorem missing_fields_take_defaults_witness:
  "science_case (parse_header (example_header Map.empty) initial_globals) = 3 \<and>
   science_mode (parse_header (example_header Map.empty) initial_globals) = 2 \<and>
   padded_size (parse_header (example_header Map.empty) initial_globals) = 12500 \<and>
   fst (main example_argv (example_env (example_header Map.empty) [Some (\<lambda>i. 0)])) =
     EXIT_SUCCESS \<and>
   file_events (events (snd (main example_argv
     ((example_env (example_header Map.empty) [Some (\<lambda>i. 0)])
        \<lparr>header_block := Some (example_header
           [''SCIENCE_CASE'' \<mapsto> 3, ''SCIENCE_MODE'' \<mapsto> 2, ''PADDED_SIZE'' \<mapsto> 12500])\<rparr>)))) =
   file_events (events (snd (main example_argv
     (example_env (example_header Map.empty) [Some (\<lambda>i. 0)]))))"
proof -
  let ?h = "example_header Map.empty"
  let ?h' = "example_header
           [''SCIENCE_CASE'' \<mapsto> 3, ''SCIENCE_MODE'' \<mapsto> 2, ''PADDED_SIZE'' \<mapsto> 12500]"
  let ?e = "example_env ?h [Some (\<lambda>i. 0)]"
  have "header_block ?e = Some ?h" by (simp add: example_env_def)
  moreover have "?h' = ?h\<lparr>hdr_i := [''SCIENCE_CASE'' \<mapsto> 3, ''SCIENCE_MODE'' \<mapsto> 2,
                            ''PADDED_SIZE'' \<mapsto> 12500] ++ hdr_i ?h\<rparr>"
    by (simp add: example_header_def)
  moreover have "hdr_i ?h ''SCIENCE_CASE'' = None" "hdr_i ?h ''SCIENCE_MODE'' = None"
    "hdr_i ?h ''PADDED_SIZE'' = None"
    by (simp_all add: example_header_def)
  ultimately show ?thesis
    using missing_fields_take_defaults [of ?e ?h ?h' example_argv] startup_ok_example [of ?h]
    by simp
qed

end
